theory Spec2Isabelle
  imports Complex_Main
begin

section \<open>The decimal engine\<close>

text \<open>
  The source delegates all arithmetic to the package \<^verbatim>\<open>@sifxt/math-utils\<close>, which
  works on string-encoded decimal numbers. A decimal string denotes an exact rational
  number, and every comparison of the engine (\<^verbatim>\<open>preciseEquals\<close>, \<^verbatim>\<open>preciseIsZero\<close>, ...)
  is numeric, so a decimal value is modelled as the rational it denotes: \<^verbatim>\<open>'2000.00'\<close>
  and \<^verbatim>\<open>'2000'\<close> are the same value.
\<close>

type_synonym decimal = rat

datatype error = DivisionByZero | RangeError

datatype PrecisionRoundingMode =
  UP | DOWN | CEIL | FLOOR | HALF_UP | HALF_DOWN | HALF_EVEN | HALF_CEIL | HALF_FLOOR

text \<open>Modelled from the spec: the engine's \<^verbatim>\<open>add\<close>, \<^verbatim>\<open>subtract\<close> and \<^verbatim>\<open>multiply\<close> are
  exact, with no precision loss (section 6); \<^verbatim>\<open>preciseSum\<close> adds its arguments, and is
  zero without arguments.\<close>

definition preciseAdd :: "decimal \<Rightarrow> decimal \<Rightarrow> decimal" where
  "preciseAdd a b = a + b"

definition preciseSubtract :: "decimal \<Rightarrow> decimal \<Rightarrow> decimal" where
  "preciseSubtract a b = a - b"

definition preciseMultiply :: "decimal \<Rightarrow> decimal \<Rightarrow> decimal" where
  "preciseMultiply a b = a * b"

definition preciseSum :: "decimal list \<Rightarrow> decimal" where
  "preciseSum xs = sum_list xs"

text \<open>Modelled from the spec: \<^verbatim>\<open>divide(a, b, precision)\<close> is the quotient truncated to
  \<^verbatim>\<open>precision\<close> fractional digits, and fails with DivisionByZero when \<^verbatim>\<open>b == 0\<close>
  (section 6). The default precision is 20.\<close>

definition truncateInt :: "rat \<Rightarrow> int" where
  "truncateInt x = (if 0 \<le> x then \<lfloor>x\<rfloor> else \<lceil>x\<rceil>)"

definition truncateTo :: "nat \<Rightarrow> decimal \<Rightarrow> decimal" where
  "truncateTo p x = of_int (truncateInt (x * 10 ^ p)) / 10 ^ p"

definition DEFAULT_PRECISION_DECIMAL_PLACES :: nat where
  "DEFAULT_PRECISION_DECIMAL_PLACES = 20"

definition preciseDivide :: "decimal \<Rightarrow> decimal \<Rightarrow> nat \<Rightarrow> error + decimal" where
  "preciseDivide a b p = (if b = 0 then Inl DivisionByZero else Inr (truncateTo p (a / b)))"

text \<open>Modelled from the spec: \<^verbatim>\<open>precisePercentage(v, r)\<close> is \<^verbatim>\<open>v * r / 100\<close>, the
  product the spec rounds in step 4 of the derived mode (section 4.4); the division by
  the constant 100 only moves the decimal point.\<close>

definition precisePercentage :: "decimal \<Rightarrow> decimal \<Rightarrow> decimal" where
  "precisePercentage v r = v * r / 100"

text \<open>Modelled from the spec: the comparisons and sign predicates are total and exact
  (section 6).\<close>

definition preciseIsZero :: "decimal \<Rightarrow> bool" where
  "preciseIsZero a = (a = 0)"

definition preciseIsNegative :: "decimal \<Rightarrow> bool" where
  "preciseIsNegative a = (a < 0)"

definition preciseGreaterThan :: "decimal \<Rightarrow> decimal \<Rightarrow> bool" where
  "preciseGreaterThan a b = (b < a)"

definition preciseEquals :: "decimal \<Rightarrow> decimal \<Rightarrow> bool" where
  "preciseEquals a b = (a = b)"

definition preciseMax :: "decimal \<Rightarrow> decimal \<Rightarrow> decimal" where
  "preciseMax a b = (if preciseGreaterThan b a then b else a)"

definition preciseClamp :: "decimal \<Rightarrow> decimal \<Rightarrow> decimal \<Rightarrow> decimal" where
  "preciseClamp v lo hi = (if v < lo then lo else if hi < v then hi else v)"

text \<open>Modelled from the spec: \<^verbatim>\<open>round(value, scale, mode)\<close> separates the value, scaled
  by \<^verbatim>\<open>10^scale\<close>, into an integer part and a remainder; the remainder and the mode
  decide between the two neighbouring integers (section 4.1).\<close>

definition roundTie :: "PrecisionRoundingMode \<Rightarrow> rat \<Rightarrow> int \<Rightarrow> int" where
  "roundTie m x f =
     (case m of
        HALF_UP \<Rightarrow> (if 0 \<le> x then f + 1 else f)
      | HALF_DOWN \<Rightarrow> (if 0 \<le> x then f else f + 1)
      | HALF_EVEN \<Rightarrow> (if even f then f else f + 1)
      | HALF_CEIL \<Rightarrow> f + 1
      | _ \<Rightarrow> f)"

definition roundHalf :: "PrecisionRoundingMode \<Rightarrow> rat \<Rightarrow> int" where
  "roundHalf m x =
     (let f = \<lfloor>x\<rfloor>; r = x - of_int f
      in if r < 1 / 2 then f else if 1 / 2 < r then f + 1 else roundTie m x f)"

definition roundInt :: "PrecisionRoundingMode \<Rightarrow> rat \<Rightarrow> int" where
  "roundInt m x =
     (case m of
        UP \<Rightarrow> (if 0 \<le> x then \<lceil>x\<rceil> else \<lfloor>x\<rfloor>)
      | DOWN \<Rightarrow> (if 0 \<le> x then \<lfloor>x\<rfloor> else \<lceil>x\<rceil>)
      | CEIL \<Rightarrow> \<lceil>x\<rceil>
      | FLOOR \<Rightarrow> \<lfloor>x\<rfloor>
      | _ \<Rightarrow> roundHalf m x)"

definition preciseRound :: "decimal \<Rightarrow> nat \<Rightarrow> PrecisionRoundingMode \<Rightarrow> decimal" where
  "preciseRound v d m = of_int (roundInt m (v * 10 ^ d)) / 10 ^ d"

text \<open>A value is at scale \<open>d\<close> when it has at most \<open>d\<close> fractional digits.\<close>

definition atScale :: "nat \<Rightarrow> decimal \<Rightarrow> bool" where
  "atScale d v = (of_int \<lfloor>v * 10 ^ d\<rfloor> = v * 10 ^ d)"

section \<open>Currency registry (constant/money.ts)\<close>

datatype RoundingMode =
  ROUND_UP | ROUND_DOWN | ROUND_CEIL | ROUND_FLOOR | ROUND_HALF_UP | ROUND_HALF_DOWN
  | ROUND_HALF_EVEN | ROUND_HALF_CEIL | ROUND_HALF_FLOOR

definition DEFAULT_ROUNDING_MODE :: RoundingMode where
  "DEFAULT_ROUNDING_MODE = ROUND_HALF_EVEN"

definition DEFAULT_DECIMAL_PLACES :: nat where
  "DEFAULT_DECIMAL_PLACES = 2"

text \<open>\<^verbatim>\<open>String.prototype.toUpperCase\<close> on a currency code, taken to be an ASCII
  string.\<close>

definition toUpperChar :: "char \<Rightarrow> char" where
  "toUpperChar c =
     (case map_of (zip ''abcdefghijklmnopqrstuvwxyz'' ''ABCDEFGHIJKLMNOPQRSTUVWXYZ'') c of
        Some u \<Rightarrow> u | None \<Rightarrow> c)"

definition toUpperCase :: "string \<Rightarrow> string" where
  "toUpperCase s = map toUpperChar s"

text \<open>The table \<^verbatim>\<open>CURRENCY_DECIMAL_PLACES\<close>, restricted to the keys of
  \<^verbatim>\<open>CURRENCY_CODES\<close> (all its keys are). \<^verbatim>\<open>getCurrencyConfig\<close> upper-cases the code and
  falls back to \<^verbatim>\<open>DEFAULT_DECIMAL_PLACES\<close> for an unknown one.\<close>

definition CURRENCY_DECIMAL_PLACES :: "(string \<times> nat) list" where
  "CURRENCY_DECIMAL_PLACES =
     [(''JPY'', 0), (''KRW'', 0), (''VND'', 0), (''IDR'', 0),
      (''KWD'', 3), (''BHD'', 3), (''OMR'', 3),
      (''INR'', 2), (''USD'', 2), (''EUR'', 2), (''GBP'', 2), (''AUD'', 2), (''SGD'', 2),
      (''CNY'', 2), (''HKD'', 2), (''THB'', 2), (''MYR'', 2), (''PHP'', 2), (''TWD'', 2),
      (''NZD'', 2), (''AED'', 2), (''SAR'', 2), (''QAR'', 2), (''CAD'', 2), (''MXN'', 2),
      (''BRL'', 2), (''CHF'', 2), (''SEK'', 2), (''NOK'', 2), (''DKK'', 2), (''PLN'', 2),
      (''CZK'', 2), (''RUB'', 2), (''TRY'', 2), (''ZAR'', 2), (''EGP'', 2), (''NGN'', 2),
      (''KES'', 2), (''LKR'', 2), (''PKR'', 2), (''BDT'', 2), (''NPR'', 2), (''MVR'', 2)]"

definition getCurrencyDecimalPlaces :: "string \<Rightarrow> nat" where
  "getCurrencyDecimalPlaces currencyCode =
     (case map_of CURRENCY_DECIMAL_PLACES (toUpperCase currencyCode) of
        Some d \<Rightarrow> d
      | None \<Rightarrow> DEFAULT_DECIMAL_PLACES)"

section \<open>Currency-aware rounding (money.utils.ts)\<close>

fun mapRoundingMode :: "RoundingMode \<Rightarrow> PrecisionRoundingMode" where
  "mapRoundingMode ROUND_UP = UP"
| "mapRoundingMode ROUND_DOWN = DOWN"
| "mapRoundingMode ROUND_CEIL = CEIL"
| "mapRoundingMode ROUND_FLOOR = FLOOR"
| "mapRoundingMode ROUND_HALF_UP = HALF_UP"
| "mapRoundingMode ROUND_HALF_DOWN = HALF_DOWN"
| "mapRoundingMode ROUND_HALF_EVEN = HALF_EVEN"
| "mapRoundingMode ROUND_HALF_CEIL = HALF_CEIL"
| "mapRoundingMode ROUND_HALF_FLOOR = HALF_FLOOR"

text \<open>\<^verbatim>\<open>round(value, decimalPlaces, mode)\<close>; the name \<open>round\<close> is taken in HOL.\<close>

definition round_m :: "decimal \<Rightarrow> nat \<Rightarrow> RoundingMode \<Rightarrow> decimal" where
  "round_m v decimalPlaces mode = preciseRound v decimalPlaces (mapRoundingMode mode)"

definition roundForCurrency :: "decimal \<Rightarrow> string \<Rightarrow> RoundingMode \<Rightarrow> decimal" where
  "roundForCurrency v currency mode =
     (let decimalPlaces = getCurrencyDecimalPlaces currency
      in round_m v decimalPlaces mode)"

section \<open>Numeric helpers\<close>

text \<open>
  A parameter of type \<^verbatim>\<open>number | string\<close> that the source reads with
  \<^verbatim>\<open>safeParsePreciseString(x, d)\<close> or \<^verbatim>\<open>safeToNumber(x, d)\<close> is an optional decimal:
  \<open>None\<close> stands for a value the parser rejects (\<^verbatim>\<open>undefined\<close>, \<^verbatim>\<open>NaN\<close>, a malformed
  string), for which the fallback \<open>d\<close> is returned. A parameter read with
  \<^verbatim>\<open>parseToString\<close> is a well-formed decimal. A JavaScript number is modelled by the
  rational it denotes (infinities are outside the model).
\<close>

definition safeParsePreciseString :: "decimal option \<Rightarrow> decimal \<Rightarrow> decimal" where
  "safeParsePreciseString x dflt = (case x of None \<Rightarrow> dflt | Some v \<Rightarrow> v)"

definition safeToNumber :: "rat option \<Rightarrow> rat \<Rightarrow> rat" where
  "safeToNumber x dflt = (case x of None \<Rightarrow> dflt | Some v \<Rightarrow> v)"

definition mathIsZero :: "rat \<Rightarrow> bool" where
  "mathIsZero x = (x = 0)"

definition mathFloor :: "rat \<Rightarrow> int" where
  "mathFloor x = \<lfloor>x\<rfloor>"

definition mathMax :: "int \<Rightarrow> int \<Rightarrow> int" where
  "mathMax a b = (if a < b then b else a)"

definition mathClamp :: "int \<Rightarrow> int \<Rightarrow> int \<Rightarrow> int" where
  "mathClamp v lo hi = (if v < lo then lo else if hi < v then hi else v)"

definition MAX_SAFE_INTEGER :: int where
  "MAX_SAFE_INTEGER = 9007199254740991"

text \<open>The comparison \<^verbatim>\<open>x < c\<close> of JavaScript on a number that may be \<^verbatim>\<open>NaN\<close> or
  \<^verbatim>\<open>undefined\<close>: false then.\<close>

definition numberLessThan :: "rat option \<Rightarrow> rat \<Rightarrow> bool" where
  "numberLessThan x c = (case x of None \<Rightarrow> False | Some v \<Rightarrow> v < c)"

section \<open>Money object operations\<close>

record Money =
  amount :: decimal
  currency_m :: string

definition divideMoney :: "Money \<Rightarrow> decimal \<Rightarrow> error + Money" where
  "divideMoney money divisor =
     (case preciseDivide (amount money) divisor DEFAULT_PRECISION_DECIMAL_PLACES of
        Inl e \<Rightarrow> Inl e
      | Inr q \<Rightarrow> Inr \<lparr>amount = q, currency_m = currency_m money\<rparr>)"

section \<open>Currency number helper functions\<close>

definition DEFAULT_CURRENCY_CODE :: string where
  "DEFAULT_CURRENCY_CODE = ''INR''"

datatype Direction = DIR_UP | DIR_DOWN

text \<open>\<^verbatim>\<open>roundCurrencyNumber(value, currencyOrDirection, direction)\<close>. The result is a
  JavaScript number: \<open>toNumber\<close>, the conversion of a decimal string to a double, is a
  parameter.\<close>

definition roundCurrencyNumber ::
  "(decimal \<Rightarrow> rat) \<Rightarrow> decimal \<Rightarrow> string \<Rightarrow> Direction option \<Rightarrow> rat" where
  "roundCurrencyNumber toNumber v currencyOrDirection direction =
     (let (currency, roundDir) =
            (if currencyOrDirection = ''UP'' then (DEFAULT_CURRENCY_CODE, Some DIR_UP)
             else if currencyOrDirection = ''DOWN'' then (DEFAULT_CURRENCY_CODE, Some DIR_DOWN)
             else (currencyOrDirection, direction));
          decimalPlaces = getCurrencyDecimalPlaces currency;
          mode = (if roundDir = Some DIR_UP then ROUND_CEIL
                  else if roundDir = Some DIR_DOWN then ROUND_FLOOR
                  else DEFAULT_ROUNDING_MODE)
      in toNumber (round_m v decimalPlaces mode))"

text \<open>\<^verbatim>\<open>divideMoneyNumbers(a, b, currency)\<close>: the guard on a zero divisor returns the
  number 0 before the engine is called.\<close>

definition divideMoneyNumbers ::
  "(decimal \<Rightarrow> rat) \<Rightarrow> decimal \<Rightarrow> decimal \<Rightarrow> string \<Rightarrow> error + rat" where
  "divideMoneyNumbers toNumber a b currency =
     (if mathIsZero (safeToNumber (Some b) 0) then Inr 0
      else
        (case preciseDivide a b DEFAULT_PRECISION_DECIMAL_PLACES of
           Inl e \<Rightarrow> Inl e
         | Inr q \<Rightarrow> Inr (roundCurrencyNumber toNumber q currency None)))"

section \<open>Rounding adjustment functions\<close>

text \<open>The increment string \<^verbatim>\<open>'0.' + '0'.repeat(decimalPlaces - 1) + '1'\<close>, with a leading
  minus sign when \<open>negative\<close>. \<^verbatim>\<open>String.prototype.repeat\<close> throws a RangeError on a
  negative count.\<close>

definition repeatZeros :: "int \<Rightarrow> error + nat" where
  "repeatZeros n = (if n < 0 then Inl RangeError else Inr (nat n))"

definition incrementFor :: "bool \<Rightarrow> nat \<Rightarrow> error + decimal" where
  "incrementFor negative decimalPlaces =
     (case repeatZeros (int decimalPlaces - 1) of
        Inl e \<Rightarrow> Inl e
      | Inr zeros \<Rightarrow> Inr ((if negative then - 1 else 1) / 10 ^ (zeros + 1)))"

text \<open>The \<^verbatim>\<open>while\<close> loop of \<^verbatim>\<open>distributeRoundingAdjustment\<close>; it stops when the difference
  is zero or at the safety limit of \<^verbatim>\<open>result.length * 10\<close> iterations.\<close>

function distributeLoop :: "decimal \<Rightarrow> decimal list \<Rightarrow> decimal \<Rightarrow> nat \<Rightarrow> decimal list" where
  "distributeLoop increment result difference index =
     (if \<not> preciseIsZero difference \<and> index < length result * 10 then
        (let itemIndex = index mod length result
         in distributeLoop increment
              (result[itemIndex := preciseAdd (result ! itemIndex) increment])
              (preciseSubtract difference increment) (index + 1))
      else result)"
  by pat_completeness auto
termination
  by (relation "measure (\<lambda>(increment, result, difference, index). length result * 10 - index)")
    auto

declare distributeLoop.simps [simp del]

definition distributeRoundingAdjustment ::
  "decimal list \<Rightarrow> decimal \<Rightarrow> nat \<Rightarrow> error + decimal list" where
  "distributeRoundingAdjustment values targetTotal decimalPlaces =
     (if length values = 0 then Inr []
      else
        (let roundedValues = map (\<lambda>v. round_m v decimalPlaces DEFAULT_ROUNDING_MODE) values;
             currentSum = preciseSum roundedValues;
             difference = preciseSubtract targetTotal currentSum
         in if preciseIsZero difference then Inr roundedValues
            else
              (case incrementFor (\<not> preciseGreaterThan difference 0) decimalPlaces of
                 Inl e \<Rightarrow> Inl e
               | Inr increment \<Rightarrow> Inr (distributeLoop increment roundedValues difference 0))))"

text \<open>The spec's words for the redistribution (section 4.2): one minimum-unit increment
  at a time, at the indices 0, 1, 2, ... wrapping.\<close>

definition addIncrementAt :: "decimal \<Rightarrow> decimal list \<Rightarrow> nat \<Rightarrow> decimal list" where
  "addIncrementAt increment xs j = xs[j mod length xs := xs ! (j mod length xs) + increment]"

definition roundRobin :: "decimal \<Rightarrow> nat \<Rightarrow> decimal list \<Rightarrow> decimal list" where
  "roundRobin increment k xs = foldl (addIncrementAt increment) xs [0..<k]"

section \<open>Invoice line item calculation\<close>

record LineItemInput =
  unitPrice :: "decimal option"
  quantity :: "rat option"
  discountAmount :: "decimal option"
  taxRate :: "decimal option"
  currency :: "string option"

text \<open>The object \<^verbatim>\<open>validateLineItemInput\<close> returns.\<close>

record ValidatedLineItem =
  unitPrice_v :: decimal
  quantity_v :: int
  discountAmount_v :: decimal
  taxRate_v :: decimal
  currency_v :: string
  isValid :: bool
  errors :: "string list"

text \<open>The fields \<^verbatim>\<open>input\<close> and \<^verbatim>\<open>calculated\<close> of a \<^verbatim>\<open>LineItemResult\<close>.\<close>

record SanitizedInput =
  unitPrice_i :: decimal
  quantity_i :: int
  discountAmount_i :: decimal
  taxRate_i :: decimal

record Calculated =
  grossAmount :: decimal
  taxableAmount :: decimal
  taxAmount :: decimal
  total :: decimal

record LineItemResult =
  input :: SanitizedInput
  calculated :: Calculated
  roundingAdjustment :: decimal
  currency_r :: string
  decimalPlaces :: nat

record EnteredTotalLineItemResult = LineItemResult +
  exactUnitPrice :: decimal
  displayedUnitPrice :: decimal
  recomputedTotal :: decimal
  hasAdjustment :: bool

record InvoiceAggregation =
  totalTaxable :: decimal
  totalTax :: decimal
  totalBeforeAdjustment :: decimal
  totalAdjustment :: decimal
  grandTotal :: decimal
  itemCount :: nat
  hasAdjustments :: bool
  items :: "LineItemResult list"
  currency_a :: string

text \<open>\<^verbatim>\<open>input.currency || 'INR'\<close>: a missing and an empty code both give the default.\<close>

definition currencyOrDefault :: "string option \<Rightarrow> string" where
  "currencyOrDefault c = (case c of None \<Rightarrow> ''INR'' | Some s \<Rightarrow> (if s = [] then ''INR'' else s))"

definition validateLineItemInput :: "LineItemInput \<Rightarrow> ValidatedLineItem" where
  "validateLineItemInput inp =
     (let errors0 = [];
          unitPrice0 = safeParsePreciseString (unitPrice inp) 0;
          errors1 = (if preciseIsNegative unitPrice0
                     then errors0 @ [''Unit price cannot be negative''] else errors0);
          unitPrice1 = (if preciseIsNegative unitPrice0 then 0 else unitPrice0);
          rawQuantity = mathFloor (safeToNumber (quantity inp) 1);
          quantity1 = mathClamp rawQuantity 1 MAX_SAFE_INTEGER;
          errors2 = (if numberLessThan (quantity inp) 1
                     then errors1 @ [''Quantity must be at least 1''] else errors1);
          discountAmount0 = safeParsePreciseString (discountAmount inp) 0;
          errors3 = (if preciseIsNegative discountAmount0
                     then errors2 @ [''Discount cannot be negative''] else errors2);
          discountAmount1 = preciseClamp discountAmount0 0 (preciseMax discountAmount0 0);
          taxRate0 = safeParsePreciseString (taxRate inp) 0;
          errors4 = (if preciseIsNegative taxRate0
                     then errors3 @ [''Tax rate cannot be negative''] else errors3);
          errors5 = (if preciseGreaterThan taxRate0 100
                     then errors4 @ [''Tax rate cannot exceed 100%''] else errors4);
          taxRate1 = preciseClamp taxRate0 0 100;
          currency1 = currencyOrDefault (currency inp)
      in \<lparr>unitPrice_v = unitPrice1, quantity_v = quantity1, discountAmount_v = discountAmount1,
          taxRate_v = taxRate1, currency_v = currency1,
          isValid = (length errors5 = 0), errors = errors5\<rparr>)"

text \<open>Derived mode. \<^verbatim>\<open>quantity.toString()\<close> is the decimal string of the clamped integer.\<close>

definition calculateLineItem :: "LineItemInput \<Rightarrow> LineItemResult" where
  "calculateLineItem inp =
     (let validated = validateLineItemInput inp;
          unitPrice = unitPrice_v validated;
          quantity = quantity_v validated;
          discountAmount = discountAmount_v validated;
          taxRate = taxRate_v validated;
          currency = currency_v validated;
          decimalPlaces = getCurrencyDecimalPlaces currency;
          grossAmount =
            roundForCurrency (preciseMultiply unitPrice (of_int quantity)) currency
              DEFAULT_ROUNDING_MODE;
          effectiveDiscount =
            (if preciseGreaterThan discountAmount grossAmount then grossAmount
             else discountAmount);
          taxableAmount =
            roundForCurrency (preciseSubtract grossAmount effectiveDiscount) currency
              DEFAULT_ROUNDING_MODE;
          taxAmount =
            roundForCurrency (precisePercentage taxableAmount taxRate) currency
              DEFAULT_ROUNDING_MODE;
          total =
            roundForCurrency (preciseAdd taxableAmount taxAmount) currency
              DEFAULT_ROUNDING_MODE
      in \<lparr>input = \<lparr>unitPrice_i = unitPrice, quantity_i = quantity,
                     discountAmount_i = effectiveDiscount, taxRate_i = taxRate\<rparr>,
          calculated = \<lparr>grossAmount = grossAmount, taxableAmount = taxableAmount,
                          taxAmount = taxAmount, total = total\<rparr>,
          roundingAdjustment = 0,
          currency_r = currency,
          decimalPlaces = decimalPlaces\<rparr>)"

text \<open>Entered-total mode. The three divisions are calls of the engine and may fail; the
  parameters carry a prime where a record field has the name.\<close>

definition calculateLineItemFromTotal ::
  "decimal \<Rightarrow> rat option \<Rightarrow> decimal option \<Rightarrow> decimal option \<Rightarrow> string
     \<Rightarrow> error + EnteredTotalLineItemResult" where
  "calculateLineItemFromTotal enteredTotal quantity' taxRate' discountAmount' currency' =
     (let decimalPlaces = getCurrencyDecimalPlaces currency';
          total = roundForCurrency enteredTotal currency' DEFAULT_ROUNDING_MODE;
          discount = safeParsePreciseString discountAmount' 0;
          tax = safeParsePreciseString taxRate' 0;
          qty = mathMax 1 (mathFloor (safeToNumber quantity' 1))
      in case preciseDivide tax 100 DEFAULT_PRECISION_DECIMAL_PLACES of
           Inl e \<Rightarrow> Inl e
         | Inr taxFraction \<Rightarrow>
        (let taxMultiplier = preciseAdd 1 taxFraction
         in case preciseDivide total taxMultiplier DEFAULT_PRECISION_DECIMAL_PLACES of
              Inl e \<Rightarrow> Inl e
            | Inr exactTaxable \<Rightarrow>
        (let taxableAmount = roundForCurrency exactTaxable currency' DEFAULT_ROUNDING_MODE;
             grossAmount =
               roundForCurrency (preciseAdd taxableAmount discount) currency'
                 DEFAULT_ROUNDING_MODE
         in case preciseDivide grossAmount (of_int qty) 10 of
              Inl e \<Rightarrow> Inl e
            | Inr unitQuotient \<Rightarrow>
        (let exactUnitPrice = unitQuotient;
             displayedUnitPrice =
               roundForCurrency exactUnitPrice currency' DEFAULT_ROUNDING_MODE;
             recomputedResult =
               calculateLineItem
                 \<lparr>unitPrice = Some displayedUnitPrice, quantity = Some (of_int qty),
                  discountAmount = Some discount, taxRate = Some tax,
                  currency = Some currency'\<rparr>;
             recomputedTotal = Calculated.total (calculated recomputedResult);
             adjustment = preciseSubtract total recomputedTotal;
             hasAdjustment = (\<not> preciseIsZero adjustment)
         in Inr \<lparr>input = \<lparr>unitPrice_i = displayedUnitPrice, quantity_i = qty,
                            discountAmount_i = discount, taxRate_i = tax\<rparr>,
                 calculated =
                   \<lparr>grossAmount = Calculated.grossAmount (calculated recomputedResult),
                    taxableAmount = Calculated.taxableAmount (calculated recomputedResult),
                    taxAmount = Calculated.taxAmount (calculated recomputedResult),
                    total = total\<rparr>,
                 roundingAdjustment = adjustment,
                 currency_r = currency',
                 decimalPlaces = decimalPlaces,
                 exactUnitPrice = exactUnitPrice,
                 displayedUnitPrice = displayedUnitPrice,
                 recomputedTotal = recomputedTotal,
                 hasAdjustment = hasAdjustment\<rparr>))))"

text \<open>An \<^verbatim>\<open>EnteredTotalLineItemResult\<close> passed where a \<^verbatim>\<open>LineItemResult\<close> is expected.\<close>

definition asLineItemResult :: "EnteredTotalLineItemResult \<Rightarrow> LineItemResult" where
  "asLineItemResult r = LineItemResult.truncate r"

definition aggregateLineItems :: "LineItemResult list \<Rightarrow> string \<Rightarrow> InvoiceAggregation" where
  "aggregateLineItems items' currency' =
     (if length items' = 0 then
        \<lparr>totalTaxable = 0, totalTax = 0, totalBeforeAdjustment = 0, totalAdjustment = 0,
         grandTotal = 0, itemCount = 0, hasAdjustments = False, items = [],
         currency_a = currency'\<rparr>
      else
        (let totalTaxable =
               roundForCurrency
                 (preciseSum (map (\<lambda>item. taxableAmount (calculated item)) items'))
                 currency' DEFAULT_ROUNDING_MODE;
             totalTax =
               roundForCurrency
                 (preciseSum (map (\<lambda>item. taxAmount (calculated item)) items'))
                 currency' DEFAULT_ROUNDING_MODE;
             totalBeforeAdjustment =
               roundForCurrency (preciseAdd totalTaxable totalTax) currency'
                 DEFAULT_ROUNDING_MODE;
             totalAdjustment = preciseSum (map (\<lambda>item. roundingAdjustment item) items');
             grandTotal =
               roundForCurrency (preciseAdd totalBeforeAdjustment totalAdjustment) currency'
                 DEFAULT_ROUNDING_MODE;
             sumOfLineTotals =
               roundForCurrency (preciseSum (map (\<lambda>item. total (calculated item)) items'))
                 currency' DEFAULT_ROUNDING_MODE;
             finalAdjustment =
               (if \<not> preciseEquals grandTotal sumOfLineTotals then
                  (let additionalAdjustment = preciseSubtract sumOfLineTotals grandTotal
                   in preciseAdd totalAdjustment additionalAdjustment)
                else totalAdjustment);
             hasAdjustments = (\<not> preciseIsZero finalAdjustment)
         in \<lparr>totalTaxable = totalTaxable, totalTax = totalTax,
             totalBeforeAdjustment = totalBeforeAdjustment,
             totalAdjustment = roundForCurrency finalAdjustment currency' DEFAULT_ROUNDING_MODE,
             grandTotal = sumOfLineTotals,
             itemCount = length items',
             hasAdjustments = hasAdjustments,
             items = items',
             currency_a = currency'\<rparr>))"

text \<open>The messages of \<^verbatim>\<open>verifyInvoiceIntegrity\<close> interpolate the line number and the two
  amounts; a message is modelled by its kind and these values.\<close>

datatype IntegrityError =
  LineItemMismatch nat decimal decimal
  | GrandTotalMismatch decimal decimal

record IntegrityDetails =
  expectedGrandTotal :: decimal
  actualGrandTotal :: decimal
  difference :: decimal

record IntegrityResult =
  isValid_g :: bool
  errors_g :: "IntegrityError list"
  details :: IntegrityDetails

text \<open>The \<^verbatim>\<open>for\<close> loop over the line items, from index \<open>i\<close> on.\<close>

fun verifyLineItems ::
  "string \<Rightarrow> nat \<Rightarrow> LineItemResult list \<Rightarrow> IntegrityError list \<Rightarrow> IntegrityError list" where
  "verifyLineItems cur i [] errs = errs"
| "verifyLineItems cur i (item # rest) errs =
     (let expectedTotal =
            roundForCurrency
              (preciseAdd
                 (preciseAdd (taxableAmount (calculated item)) (taxAmount (calculated item)))
                 (roundingAdjustment item))
              cur DEFAULT_ROUNDING_MODE
      in verifyLineItems cur (i + 1) rest
           (if \<not> preciseEquals (total (calculated item)) expectedTotal
            then errs @ [LineItemMismatch (i + 1) (total (calculated item)) expectedTotal]
            else errs))"

definition verifyInvoiceIntegrity :: "InvoiceAggregation \<Rightarrow> IntegrityResult" where
  "verifyInvoiceIntegrity aggregation =
     (let errors0 = [];
          cur = currency_a aggregation;
          errors1 = verifyLineItems cur 0 (items aggregation) errors0;
          expectedGrandTotal =
            roundForCurrency
              (preciseSum (map (\<lambda>item. total (calculated item)) (items aggregation)))
              cur DEFAULT_ROUNDING_MODE;
          errors2 =
            (if \<not> preciseEquals (grandTotal aggregation) expectedGrandTotal
             then errors1 @ [GrandTotalMismatch (grandTotal aggregation) expectedGrandTotal]
             else errors1);
          difference = preciseSubtract (grandTotal aggregation) expectedGrandTotal
      in \<lparr>isValid_g = (length errors2 = 0), errors_g = errors2,
          details = \<lparr>expectedGrandTotal = expectedGrandTotal,
                       actualGrandTotal = grandTotal aggregation,
                       difference = difference\<rparr>\<rparr>)"

section \<open>Tax helpers\<close>

record CgstSgst =
  cgst :: decimal
  sgst :: decimal

text \<open>\<^verbatim>\<open>splitTaxCGSTSGST(taxAmount, currency)\<close>: the division by the literal \<^verbatim>\<open>'2'\<close> never
  fails, so the function is total.\<close>

definition splitTaxCGSTSGST :: "decimal \<Rightarrow> string \<Rightarrow> error + CgstSgst" where
  "splitTaxCGSTSGST taxAmount' currency' =
     (let tax = taxAmount'; currency = currency' in
      case preciseDivide tax 2 DEFAULT_PRECISION_DECIMAL_PLACES of
        Inl e \<Rightarrow> Inl e
      | Inr half \<Rightarrow>
          (let cgst = roundForCurrency half currency DEFAULT_ROUNDING_MODE;
               sgst = roundForCurrency (preciseSubtract tax cgst) currency DEFAULT_ROUNDING_MODE
           in Inr \<lparr>cgst = cgst, sgst = sgst\<rparr>))"

section \<open>Specification-side definitions\<close>

text \<open>The spec's words for the derived mode (section 4.4): gross, taxable, tax and total,
  each step rounded to the currency scale, ties to even, before the next step consumes
  it; the effective discount is the minimum of the discount and the gross amount.\<close>

definition roundToScale :: "string \<Rightarrow> decimal \<Rightarrow> decimal" where
  "roundToScale c x = preciseRound x (getCurrencyDecimalPlaces c) HALF_EVEN"

definition derivedModeSpec :: "decimal \<Rightarrow> int \<Rightarrow> decimal \<Rightarrow> decimal \<Rightarrow> string \<Rightarrow> Calculated" where
  "derivedModeSpec price qty discount rate c =
     (let gross = roundToScale c (price * of_int qty);
          effectiveDiscount = min discount gross;
          taxable = roundToScale c (gross - effectiveDiscount);
          tax = roundToScale c (taxable * rate / 100);
          tot = roundToScale c (taxable + tax)
      in \<lparr>grossAmount = gross, taxableAmount = taxable, taxAmount = tax, total = tot\<rparr>)"

text \<open>A line item produced by one of the two calculation modes, in a currency with at
  most \<open>d\<close> decimal places.\<close>

inductive produced :: "nat \<Rightarrow> LineItemResult \<Rightarrow> bool" where
  derived:
    "getCurrencyDecimalPlaces (currencyOrDefault (currency inp)) \<le> d
     \<Longrightarrow> produced d (calculateLineItem inp)"
| entered:
    "calculateLineItemFromTotal t q tax disc c = Inr r
     \<Longrightarrow> getCurrencyDecimalPlaces c \<le> d
     \<Longrightarrow> produced d (asLineItemResult r)"

section \<open>Scales and rounding\<close>


lemmas engine_defs =
  preciseAdd_def preciseSubtract_def preciseMultiply_def preciseSum_def precisePercentage_def
  preciseIsZero_def preciseIsNegative_def preciseGreaterThan_def preciseEquals_def
  preciseMax_def preciseClamp_def

lemma atScale_iff: "atScale d v \<longleftrightarrow> (\<exists>n::int. v * 10 ^ d = of_int n)"
  unfolding atScale_def by (metis of_int_floor_cancel)

lemma atScaleI: "v * 10 ^ d = of_int n \<Longrightarrow> atScale d v"
  unfolding atScale_iff by blast

lemma atScale_0: "atScale d 0"
  by (rule atScaleI [of _ _ 0]) simp

lemma atScale_add: "atScale d a \<Longrightarrow> atScale d b \<Longrightarrow> atScale d (a + b)"
  unfolding atScale_iff
proof -
  assume "\<exists>n::int. a * 10 ^ d = of_int n" "\<exists>n::int. b * 10 ^ d = of_int n"
  then obtain n k :: int where "a * 10 ^ d = of_int n" "b * 10 ^ d = of_int k" by blast
  then have "(a + b) * 10 ^ d = of_int (n + k)" by (simp add: algebra_simps)
  then show "\<exists>n::int. (a + b) * 10 ^ d = of_int n" by blast
qed

lemma atScale_diff: "atScale d a \<Longrightarrow> atScale d b \<Longrightarrow> atScale d (a - b)"
  unfolding atScale_iff
proof -
  assume "\<exists>n::int. a * 10 ^ d = of_int n" "\<exists>n::int. b * 10 ^ d = of_int n"
  then obtain n k :: int where "a * 10 ^ d = of_int n" "b * 10 ^ d = of_int k" by blast
  then have "(a - b) * 10 ^ d = of_int (n - k)" by (simp add: algebra_simps)
  then show "\<exists>n::int. (a - b) * 10 ^ d = of_int n" by blast
qed

lemma atScale_mono:
  assumes "atScale d v" "d \<le> p" shows "atScale p v"
proof -
  from assms(1) obtain n :: int where n: "v * 10 ^ d = of_int n" unfolding atScale_iff by blast
  from assms(2) obtain k where p: "p = d + k" using le_Suc_ex by blast
  have "v * 10 ^ p = of_int (n * 10 ^ k)"
    using n by (simp add: p power_add)
  then show ?thesis by (rule atScaleI)
qed

lemma atScale_half:
  assumes "atScale d v" shows "atScale (Suc d) (v / 2)"
proof -
  from assms obtain n :: int where n: "v * 10 ^ d = of_int n" unfolding atScale_iff by blast
  have "v / 2 * 10 ^ Suc d = (v * 10 ^ d) * 5" by simp
  also have "\<dots> = of_int (n * 5)" using n by simp
  finally show ?thesis by (rule atScaleI)
qed

lemma atScale_sum_list: "(\<And>x. x \<in> set xs \<Longrightarrow> atScale d x) \<Longrightarrow> atScale d (sum_list xs)"
  by (induction xs) (simp_all add: atScale_0 atScale_add)

lemma roundInt_of_int: "roundInt m (of_int n) = n"
  by (cases m) (simp_all add: roundInt_def roundHalf_def Let_def)

lemma preciseRound_atScale:
  assumes "atScale d v" shows "preciseRound v d m = v"
proof -
  from assms obtain n :: int where n: "v * 10 ^ d = of_int n" unfolding atScale_iff by blast
  have "preciseRound v d m = of_int n / 10 ^ d"
    unfolding preciseRound_def n roundInt_of_int ..
  also have "\<dots> = v" using n by (simp add: field_simps)
  finally show ?thesis .
qed

lemma atScale_preciseRound: "atScale d (preciseRound v d m)"
  by (rule atScaleI [of _ _ "roundInt m (v * 10 ^ d)"]) (simp add: preciseRound_def)

lemma truncateTo_atScale:
  assumes "atScale p x" shows "truncateTo p x = x"
proof -
  from assms obtain n :: int where n: "x * 10 ^ p = of_int n" unfolding atScale_iff by blast
  have "truncateInt (of_int n) = n" by (simp add: truncateInt_def)
  then have "truncateTo p x = of_int n / 10 ^ p"
    unfolding truncateTo_def n by simp
  also have "\<dots> = x" using n by (simp add: field_simps)
  finally show ?thesis .
qed

lemma decimalPlaces_le_3: "getCurrencyDecimalPlaces c \<le> 3"
proof (cases "map_of CURRENCY_DECIMAL_PLACES (toUpperCase c)")
  case None
  then show ?thesis by (simp add: getCurrencyDecimalPlaces_def DEFAULT_DECIMAL_PLACES_def)
next
  case (Some d)
  then have "(toUpperCase c, d) \<in> set CURRENCY_DECIMAL_PLACES" by (rule map_of_SomeD)
  then have "d \<le> 3" unfolding CURRENCY_DECIMAL_PLACES_def by auto
  with Some show ?thesis by (simp add: getCurrencyDecimalPlaces_def)
qed

text \<open>The engine as modelled agrees with the examples of the test suite and the README.\<close>

lemma preciseRound_examples:
  "preciseRound (123455 / 1000) 2 HALF_EVEN = 12346 / 100
   \<and> preciseRound (123445 / 1000) 2 HALF_EVEN = 12344 / 100
   \<and> preciseRound (1235 / 10) 0 HALF_EVEN = 124
   \<and> preciseRound (1245 / 10) 0 HALF_EVEN = 124
   \<and> preciseRound (- 5 / 2) 0 HALF_EVEN = - 2
   \<and> preciseRound (123451 / 1000) 2 UP = 12346 / 100
   \<and> preciseRound (123001 / 1000) 2 UP = 12301 / 100
   \<and> preciseRound (123459 / 1000) 2 DOWN = 12345 / 100
   \<and> preciseRound (123455 / 1000) 2 HALF_UP = 12346 / 100
   \<and> preciseRound (123445 / 1000) 2 HALF_UP = 12345 / 100
   \<and> preciseRound (123401 / 100) 0 CEIL = 1235
   \<and> preciseRound (123499 / 100) 0 FLOOR = 1234"
  by code_simp
lemma preciseDivide_examples:
  "preciseDivide 100 4 DEFAULT_PRECISION_DECIMAL_PLACES = Inr 25
   \<and> preciseDivide 10 3 2 = Inr (333 / 100)
   \<and> preciseDivide 1 8 3 = Inr (125 / 1000)
   \<and> preciseDivide 100 0 DEFAULT_PRECISION_DECIMAL_PLACES = Inl DivisionByZero"
  by code_simp

lemma roundForCurrency_atScale:
  "atScale (getCurrencyDecimalPlaces c) v \<Longrightarrow> roundForCurrency v c m = v"
  by (simp add: roundForCurrency_def round_m_def preciseRound_atScale)

lemma atScale_roundForCurrency: "atScale (getCurrencyDecimalPlaces c) (roundForCurrency v c m)"
  by (simp add: roundForCurrency_def round_m_def atScale_preciseRound)

section \<open>Line items: shared facts\<close>

lemma decimalPlaces_currencyOrDefault:
  "getCurrencyDecimalPlaces (currencyOrDefault (Some c)) = getCurrencyDecimalPlaces c"
proof (cases "c = []")
  case True
  have "getCurrencyDecimalPlaces ''INR'' = getCurrencyDecimalPlaces []" by code_simp
  with True show ?thesis by (simp add: currencyOrDefault_def)
next
  case False
  then show ?thesis by (simp add: currencyOrDefault_def)
qed

lemma currency_v_validate: "currency_v (validateLineItemInput inp) = currencyOrDefault (currency inp)"
  by (simp add: validateLineItemInput_def Let_def)

lemma currency_r_calculateLineItem:
  "currency_r (calculateLineItem inp) = currencyOrDefault (currency inp)"
  by (simp add: calculateLineItem_def Let_def currency_v_validate)

lemma roundingAdjustment_calculateLineItem: "roundingAdjustment (calculateLineItem inp) = 0"
  by (simp add: calculateLineItem_def Let_def)

lemma total_calculateLineItem:
  "total (calculated (calculateLineItem inp))
     = taxableAmount (calculated (calculateLineItem inp))
       + taxAmount (calculated (calculateLineItem inp))"
proof -
  let ?c = "currency_v (validateLineItemInput inp)"
  have "roundForCurrency (roundForCurrency a ?c m + roundForCurrency b ?c m') ?c m'' 
      = roundForCurrency a ?c m + roundForCurrency b ?c m'" for a b m m' m''
    by (intro roundForCurrency_atScale atScale_add atScale_roundForCurrency)
  then show ?thesis
    by (simp add: calculateLineItem_def Let_def preciseAdd_def)
qed

lemma atScale_total_calculateLineItem:
  "atScale (getCurrencyDecimalPlaces (currencyOrDefault (currency inp)))
     (total (calculated (calculateLineItem inp)))"
  by (simp add: calculateLineItem_def Let_def currency_v_validate atScale_roundForCurrency)

lemma mathMax_ge: "1 \<le> mathMax 1 n"
  by (simp add: mathMax_def)

lemma calculateLineItemFromTotal_Inr:
  assumes "preciseAdd 1 (truncateTo DEFAULT_PRECISION_DECIMAL_PLACES
                           (safeParsePreciseString tax 0 / 100)) \<noteq> 0"
  shows "\<exists>r. calculateLineItemFromTotal t q tax disc c = Inr r
    \<and> total (calculated r) = roundForCurrency t c DEFAULT_ROUNDING_MODE
    \<and> quantity_i (input r) = mathMax 1 (mathFloor (safeToNumber q 1))
    \<and> displayedUnitPrice r = roundForCurrency (exactUnitPrice r) c DEFAULT_ROUNDING_MODE
    \<and> unitPrice_i (input r) = displayedUnitPrice r
    \<and> recomputedTotal r =
        total (calculated (calculateLineItem
          \<lparr>unitPrice = Some (displayedUnitPrice r), quantity = Some (of_int (quantity_i (input r))),
           discountAmount = Some (safeParsePreciseString disc 0),
           taxRate = Some (safeParsePreciseString tax 0), currency = Some c\<rparr>))
    \<and> taxableAmount (calculated r) =
        taxableAmount (calculated (calculateLineItem
          \<lparr>unitPrice = Some (displayedUnitPrice r), quantity = Some (of_int (quantity_i (input r))),
           discountAmount = Some (safeParsePreciseString disc 0),
           taxRate = Some (safeParsePreciseString tax 0), currency = Some c\<rparr>))
    \<and> taxAmount (calculated r) =
        taxAmount (calculated (calculateLineItem
          \<lparr>unitPrice = Some (displayedUnitPrice r), quantity = Some (of_int (quantity_i (input r))),
           discountAmount = Some (safeParsePreciseString disc 0),
           taxRate = Some (safeParsePreciseString tax 0), currency = Some c\<rparr>))
    \<and> roundingAdjustment r = total (calculated r) - recomputedTotal r
    \<and> hasAdjustment r = (roundingAdjustment r \<noteq> 0)
    \<and> currency_r r = c"
proof -
  have q: "rat_of_int (mathMax 1 (mathFloor (safeToNumber q 1))) \<noteq> 0"
    using mathMax_ge [of "mathFloor (safeToNumber q 1)"] by simp
  show ?thesis
    using assms q
    by (simp add: calculateLineItemFromTotal_def preciseDivide_def Let_def
        preciseSubtract_def preciseIsZero_def)
qed

lemma calculateLineItemFromTotal_Inl:
  assumes "preciseAdd 1 (truncateTo DEFAULT_PRECISION_DECIMAL_PLACES
                           (safeParsePreciseString tax 0 / 100)) = 0"
  shows "calculateLineItemFromTotal t q tax disc c = Inl DivisionByZero"
  using assms by (simp add: calculateLineItemFromTotal_def preciseDivide_def Let_def)

text \<open>The tax multiplier \<open>1 + taxRate / 100\<close> of the entered-total mode is not zero for
  a tax rate above -100, so for every rate in \<open>[0, 100]\<close>.\<close>

lemma taxMultiplier_nonzero:
  assumes "- 100 < x"
  shows "preciseAdd 1 (truncateTo p (x / 100)) \<noteq> 0"
proof -
  let ?y = "x / 100 * 10 ^ p"
  have y: "- (10 ^ p) < ?y"
  proof -
    have "- 1 < x / 100" using assms by simp
    then have "- 1 * 10 ^ p < ?y" by (intro mult_strict_right_mono) simp_all
    then show ?thesis by simp
  qed
  have "- (10 ^ p) < rat_of_int (truncateInt ?y)"
  proof (cases "0 \<le> ?y")
    case True
    then have "0 \<le> rat_of_int (truncateInt ?y)" by (simp add: truncateInt_def)
    moreover have "- (10 ^ p) < (0::rat)" by simp
    ultimately show ?thesis by linarith
  next
    case False
    then have "rat_of_int (truncateInt ?y) = of_int \<lceil>?y\<rceil>" by (simp add: truncateInt_def)
    moreover have "?y \<le> of_int \<lceil>?y\<rceil>" by (rule le_of_int_ceiling)
    ultimately show ?thesis using y by linarith
  qed
  then have "- 1 < truncateTo p (x / 100)"
    by (simp add: truncateTo_def pos_less_divide_eq)
  then show ?thesis by (simp add: preciseAdd_def)
qed

lemma taxMultiplier_zero:
  "preciseAdd 1 (truncateTo DEFAULT_PRECISION_DECIMAL_PLACES
                   (safeParsePreciseString (Some (- 100)) 0 / 100)) = 0"
  by code_simp

section \<open>Tax split\<close>

text \<open>
  C7 (amended). For every currency and every tax amount that is at the currency's scale,
  \<^verbatim>\<open>splitTaxCGSTSGST\<close> returns CGST as the rounded half of the tax and SGST as the exact
  remainder \<open>tax - cgst\<close>, so that \<open>cgst + sgst = tax\<close> exactly. The remainder is rounded
  to the currency's scale as well, which leaves it unchanged only for such a tax amount.
\<close>

theorem splitTaxCGSTSGST_remainder:
  assumes "atScale (getCurrencyDecimalPlaces c) t"
  shows "\<exists>r. splitTaxCGSTSGST t c = Inr r
    \<and> cgst r = roundForCurrency (t / 2) c DEFAULT_ROUNDING_MODE
    \<and> sgst r = t - cgst r
    \<and> cgst r + sgst r = t"
proof -
  let ?d = "getCurrencyDecimalPlaces c"
  let ?h = "roundForCurrency (t / 2) c DEFAULT_ROUNDING_MODE"
  have "atScale (Suc ?d) (t / 2)" using assms by (rule atScale_half)
  moreover have "Suc ?d \<le> 20" using decimalPlaces_le_3 [of c] by simp
  ultimately have "atScale 20 (t / 2)" by (rule atScale_mono)
  then have half: "preciseDivide t 2 DEFAULT_PRECISION_DECIMAL_PLACES = Inr (t / 2)"
    by (simp add: preciseDivide_def DEFAULT_PRECISION_DECIMAL_PLACES_def truncateTo_atScale)
  have "atScale ?d (t - ?h)"
    using assms atScale_roundForCurrency by (rule atScale_diff)
  then have rest: "roundForCurrency (t - ?h) c DEFAULT_ROUNDING_MODE = t - ?h"
    by (rule roundForCurrency_atScale)
  have "splitTaxCGSTSGST t c = Inr \<lparr>cgst = ?h, sgst = t - ?h\<rparr>"
    by (simp add: splitTaxCGSTSGST_def half Let_def preciseSubtract_def rest)
  then show ?thesis by simp
qed

text \<open>The amount 181 in INR: both halves are 90.50 and their sum is 181.\<close>

lemma split_181: "atScale (getCurrencyDecimalPlaces ''INR'') 181"
  by code_simp

theorem splitTaxCGSTSGST_remainder_witness:
  "atScale (getCurrencyDecimalPlaces ''INR'') 181
   \<and> (case splitTaxCGSTSGST 181 ''INR'' of
        Inr r \<Rightarrow> cgst r + sgst r = 181 | Inl e \<Rightarrow> False)"
  using splitTaxCGSTSGST_remainder [OF split_181] split_181 by auto

text \<open>
  C7 as stated fails for a tax amount finer than the currency's scale: 10.001 in INR is
  split into 5.00 and 5.00.
\<close>

theorem splitTaxCGSTSGST_counterexample:
  "splitTaxCGSTSGST (10001 / 1000) ''INR'' = Inr \<lparr>cgst = 5, sgst = 5\<rparr>
   \<and> cgst \<lparr>cgst = 5, sgst = 5\<rparr> + sgst \<lparr>cgst = 5, sgst = 5\<rparr> \<noteq> 10001 / 1000"
  by code_simp

section \<open>Division by zero\<close>

text \<open>
  C8 (amended). \<^verbatim>\<open>divideMoney\<close> propagates the engine's DivisionByZero unchanged for
  every Money value and a zero divisor, and so does \<^verbatim>\<open>calculateLineItemFromTotal\<close> for the
  tax rate -100, whose tax multiplier is zero; whereas \<^verbatim>\<open>divideMoneyNumbers\<close> guards the
  zero divisor and returns the number 0 for every amount and currency, and never fails.
\<close>

theorem divide_by_zero_policy:
  "divideMoney m 0 = Inl DivisionByZero
   \<and> calculateLineItemFromTotal t q (Some (- 100)) disc c = Inl DivisionByZero
   \<and> divideMoneyNumbers toNumber a 0 c' = Inr 0
   \<and> (\<exists>v. divideMoneyNumbers toNumber a b c' = Inr v)"
proof (intro conjI)
  show "divideMoney m 0 = Inl DivisionByZero"
    by (simp add: divideMoney_def preciseDivide_def)
  show "calculateLineItemFromTotal t q (Some (- 100)) disc c = Inl DivisionByZero"
    using taxMultiplier_zero by (rule calculateLineItemFromTotal_Inl)
  show "divideMoneyNumbers toNumber a 0 c' = Inr 0"
    by (simp add: divideMoneyNumbers_def mathIsZero_def safeToNumber_def)
  show "\<exists>v. divideMoneyNumbers toNumber a b c' = Inr v"
    by (simp add: divideMoneyNumbers_def mathIsZero_def safeToNumber_def preciseDivide_def)
qed

text \<open>C8 as stated fails on \<^verbatim>\<open>divideMoneyNumbers(1, 0)\<close>, which returns a value.\<close>

theorem divideMoneyNumbers_counterexample:
  "divideMoneyNumbers id 1 0 ''INR'' = Inr 0
   \<and> divideMoneyNumbers id 1 0 ''INR'' \<noteq> Inl DivisionByZero"
  by (simp add: divideMoneyNumbers_def mathIsZero_def safeToNumber_def)

section \<open>Residual redistribution\<close>

lemma sum_list_update_add:
  "i < length xs \<Longrightarrow> sum_list (xs[i := xs ! i + c]) = sum_list xs + (c::rat)"
proof (induction xs arbitrary: i)
  case Nil
  then show ?case by simp
next
  case (Cons x xs)
  then show ?case by (cases i) simp_all
qed

lemma length_addIncrementAt: "length (addIncrementAt c xs j) = length xs"
  by (simp add: addIncrementAt_def)

lemma sum_list_addIncrementAt:
  "xs \<noteq> [] \<Longrightarrow> sum_list (addIncrementAt c xs j) = sum_list xs + c"
  by (simp add: addIncrementAt_def sum_list_update_add)

lemma length_foldl_addIncrementAt: "length (foldl (addIncrementAt c) xs js) = length xs"
  by (induction js arbitrary: xs) (simp_all add: length_addIncrementAt)

lemma sum_list_foldl_addIncrementAt:
  "xs \<noteq> [] \<Longrightarrow> sum_list (foldl (addIncrementAt c) xs js) = sum_list xs + of_nat (length js) * c"
proof (induction js arbitrary: xs)
  case Nil
  then show ?case by simp
next
  case (Cons j js)
  have "addIncrementAt c xs j \<noteq> []"
    using Cons.prems length_addIncrementAt [of c xs j] by auto
  then show ?case
    using Cons.IH [of "addIncrementAt c xs j"] Cons.prems
    by (simp add: sum_list_addIncrementAt algebra_simps)
qed

lemma length_roundRobin: "length (roundRobin c k xs) = length xs"
  by (simp add: roundRobin_def length_foldl_addIncrementAt)

lemma sum_list_roundRobin: "xs \<noteq> [] \<Longrightarrow> sum_list (roundRobin c k xs) = sum_list xs + of_nat k * c"
  by (simp add: roundRobin_def sum_list_foldl_addIncrementAt)

text \<open>The loop, started at \<open>index\<close> with a difference of \<open>j\<close> increments and enough
  iterations left, adds the increment at the indices \<open>index, ..., index + j - 1\<close>.\<close>

lemma distributeLoop_steps:
  "c \<noteq> 0 \<Longrightarrow> index + j \<le> length xs * 10 \<Longrightarrow>
   distributeLoop c xs (of_nat j * c) index = foldl (addIncrementAt c) xs [index..<index + j]"
proof (induction j arbitrary: xs index)
  case 0
  show ?case by (subst distributeLoop.simps) (simp add: preciseIsZero_def)
next
  case (Suc j)
  let ?xs = "addIncrementAt c xs index"
  have len: "length ?xs = length xs" by (rule length_addIncrementAt)
  have lt: "index < length xs * 10" using Suc.prems(2) by simp
  have nz: "\<not> preciseIsZero (of_nat (Suc j) * c)"
    using Suc.prems(1) by (simp add: preciseIsZero_def del: of_nat_Suc) 
  have "distributeLoop c xs (of_nat (Suc j) * c) index
      = distributeLoop c ?xs (of_nat j * c) (index + 1)"
    using nz lt
    by (subst distributeLoop.simps)
      (simp add: Let_def addIncrementAt_def preciseAdd_def preciseSubtract_def algebra_simps)
  also have "\<dots> = foldl (addIncrementAt c) ?xs [index + 1..<index + 1 + j]"
    using Suc.prems by (intro Suc.IH) (simp_all add: len)
  also have "\<dots> = foldl (addIncrementAt c) xs [index..<index + Suc j]"
  proof -
    have "[index..<index + Suc j] = index # [index + 1..<index + 1 + j]"
      by (subst upt_rec) simp
    then show ?thesis by simp
  qed
  finally show ?case .
qed


lemma incrementFor_pos: "1 \<le> d \<Longrightarrow> incrementFor negative d = Inr ((if negative then - 1 else 1) / 10 ^ d)"
  by (cases d) (simp_all add: incrementFor_def repeatZeros_def)

text \<open>
  C2. For a non-empty list of values, a scale \<open>d \<ge> 1\<close> and a target total whose
  residual against the rounded values is \<open>k\<close> minor units with \<open>\<bar>k\<bar> \<le> 10 * n\<close>,
  \<^verbatim>\<open>distributeRoundingAdjustment\<close> returns a list of the same length whose sum is the
  target total exactly; the list is the rounded values with one minor unit of the residual's
  sign added \<open>\<bar>k\<bar>\<close> times, at the indices 0, 1, 2, ... wrapping.
\<close>

theorem distributeRoundingAdjustment_conserves:
  assumes ne: "values \<noteq> []" and d: "1 \<le> d"
    and res: "targetTotal - preciseSum (map (\<lambda>v. round_m v d DEFAULT_ROUNDING_MODE) values)
                = of_int k / 10 ^ d"
    and bound: "\<bar>k\<bar> \<le> 10 * int (length values)"
  shows "\<exists>r. distributeRoundingAdjustment values targetTotal d = Inr r
    \<and> length r = length values
    \<and> preciseSum r = targetTotal
    \<and> r = roundRobin (of_int (sgn k) / 10 ^ d) (nat \<bar>k\<bar>)
          (map (\<lambda>v. round_m v d DEFAULT_ROUNDING_MODE) values)"
proof -
  let ?rounded = "map (\<lambda>v. round_m v d DEFAULT_ROUNDING_MODE) values"
  let ?c = "of_int (sgn k) / 10 ^ d :: rat"
  let ?j = "nat \<bar>k\<bar>"
  let ?r = "roundRobin ?c ?j ?rounded"
  have rne: "?rounded \<noteq> []" using ne by simp
  have diff: "preciseSubtract targetTotal (preciseSum ?rounded) = of_int k / 10 ^ d"
    using res by (simp add: preciseSubtract_def)
  have steps: "of_nat ?j * ?c = of_int k / 10 ^ d"
  proof -
    have "of_nat ?j * (of_int (sgn k) :: rat) = of_int (\<bar>k\<bar> * sgn k)" by simp
    also have "\<bar>k\<bar> * sgn k = k" by (simp add: sgn_if)
    finally show ?thesis by simp
  qed
  have total: "preciseSum ?r = targetTotal"
    using res steps by (simp add: preciseSum_def sum_list_roundRobin [OF rne])
  have len: "length ?r = length values" by (simp add: length_roundRobin)
  have run: "distributeRoundingAdjustment values targetTotal d = Inr ?r"
  proof (cases "k = 0")
    case True
    then show ?thesis
      using ne diff by (simp add: distributeRoundingAdjustment_def Let_def preciseIsZero_def roundRobin_def)
  next
    case False
    then have cnz: "?c \<noteq> 0" by (simp add: sgn_if)
    have dnz: "\<not> preciseIsZero (preciseSubtract targetTotal (preciseSum ?rounded))"
      using False by (simp add: diff preciseIsZero_def)
    have sign: "(if \<not> preciseGreaterThan (preciseSubtract targetTotal (preciseSum ?rounded)) 0
                 then - 1 else 1) / 10 ^ d = ?c"
      using False by (simp add: diff preciseGreaterThan_def sgn_if zero_less_divide_iff)
    have fits: "0 + ?j \<le> length ?rounded * 10" using bound by simp
    have "distributeLoop ?c ?rounded (of_nat ?j * ?c) 0
        = foldl (addIncrementAt ?c) ?rounded [0..<0 + ?j]"
      using cnz fits by (rule distributeLoop_steps)
    then have loop: "distributeLoop ?c ?rounded (of_int k / 10 ^ d) 0 = ?r"
      by (simp only: steps roundRobin_def add_0)
    show ?thesis
      using ne dnz
      by (simp add: distributeRoundingAdjustment_def Let_def incrementFor_pos [OF d] sign)
        (simp add: diff loop)
  qed
  show ?thesis using run len total by blast
qed

text \<open>Three values of 33.33 and the target 100 at scale 2: the residual is one minor
  unit, which the first element receives.\<close>

lemma conserves_eval:
  "(100::rat) - preciseSum (map (\<lambda>v. round_m v 2 DEFAULT_ROUNDING_MODE) [3333 / 100, 3333 / 100, 3333 / 100])
     = of_int 1 / 10 ^ 2"
  by code_simp

lemma conserves_result:
  "roundRobin (rat_of_int (sgn 1) / 10 ^ 2) (nat \<bar>1\<bar>)
     (map (\<lambda>v. round_m v 2 DEFAULT_ROUNDING_MODE) [3333 / 100, 3333 / 100, 3333 / 100])
   = [3334 / 100, 3333 / 100, 3333 / 100]"
  by code_simp

theorem distributeRoundingAdjustment_conserves_witness:
  "distributeRoundingAdjustment [3333 / 100, 3333 / 100, 3333 / 100] 100 2
     = Inr [3334 / 100, 3333 / 100, 3333 / 100]
   \<and> preciseSum [3334 / 100, 3333 / 100, 3333 / 100] = 100"
  using distributeRoundingAdjustment_conserves
    [of "[3333 / 100, 3333 / 100, 3333 / 100]" 2 100 1, OF _ _ conserves_eval]
    conserves_result
  by auto

text \<open>
  C10. With \<open>decimalPlaces = 0\<close>, every non-empty list of values whose rounded sum
  differs from the target total makes \<^verbatim>\<open>distributeRoundingAdjustment\<close> throw the
  RangeError of the negative repeat count; with \<open>decimalPlaces \<ge> 1\<close> it always returns a
  list.
\<close>

theorem distributeRoundingAdjustment_scale_zero:
  "(values \<noteq> [] \<and> preciseSum (map (\<lambda>v. round_m v 0 DEFAULT_ROUNDING_MODE) values) \<noteq> targetTotal
      \<longrightarrow> distributeRoundingAdjustment values targetTotal 0 = Inl RangeError)
   \<and> (1 \<le> d \<longrightarrow> (\<exists>r. distributeRoundingAdjustment values targetTotal d = Inr r))"
  by (auto simp add: distributeRoundingAdjustment_def Let_def incrementFor_def repeatZeros_def
      engine_defs)

lemma scale_zero_eval:
  "preciseSum (map (\<lambda>v. round_m v 0 DEFAULT_ROUNDING_MODE) [3333 / 100, 3333 / 100, 3333 / 100]) = 99"
  by code_simp

theorem distributeRoundingAdjustment_scale_zero_witness:
  "distributeRoundingAdjustment [3333 / 100, 3333 / 100, 3333 / 100] 100 0 = Inl RangeError
   \<and> (\<exists>r. distributeRoundingAdjustment [3333 / 100, 3333 / 100, 3333 / 100] 100 2 = Inr r)"
  using distributeRoundingAdjustment_scale_zero [of "[3333 / 100, 3333 / 100, 3333 / 100]" 100 2]
    scale_zero_eval by simp

section \<open>Line item invariant and entered-total mode\<close>

text \<open>
  C1 (amended). For every input, the result of \<^verbatim>\<open>calculateLineItem\<close> satisfies
  \<open>total = taxableAmount + taxAmount + roundingAdjustment\<close> exactly; and for every entered
  total, quantity, tax rate, discount and currency, so does every result that
  \<^verbatim>\<open>calculateLineItemFromTotal\<close> returns, with its rounding adjustment equal to the
  entered total rounded to the currency's scale minus the recomputed total, the total of
  \<^verbatim>\<open>calculateLineItem\<close> at the displayed unit price. The only call that returns no result
  is the one whose tax multiplier \<open>1 + taxRate / 100\<close> is zero, where the engine's
  DivisionByZero surfaces.
\<close>

theorem lineItem_total_invariant:
  "total (calculated (calculateLineItem inp))
     = taxableAmount (calculated (calculateLineItem inp))
       + taxAmount (calculated (calculateLineItem inp))
       + roundingAdjustment (calculateLineItem inp)
   \<and> (case calculateLineItemFromTotal t q tax disc c of
        Inr r \<Rightarrow>
          total (calculated r)
            = taxableAmount (calculated r) + taxAmount (calculated r) + roundingAdjustment r
          \<and> roundingAdjustment r
              = roundForCurrency t c DEFAULT_ROUNDING_MODE - recomputedTotal r
          \<and> recomputedTotal r =
              total (calculated (calculateLineItem
                \<lparr>unitPrice = Some (displayedUnitPrice r),
                 quantity = Some (of_int (quantity_i (input r))),
                 discountAmount = Some (safeParsePreciseString disc 0),
                 taxRate = Some (safeParsePreciseString tax 0), currency = Some c\<rparr>))
      | Inl e \<Rightarrow>
          e = DivisionByZero
          \<and> preciseAdd 1 (truncateTo DEFAULT_PRECISION_DECIMAL_PLACES
                            (safeParsePreciseString tax 0 / 100)) = 0)"
proof (rule conjI)
  show "total (calculated (calculateLineItem inp))
     = taxableAmount (calculated (calculateLineItem inp))
       + taxAmount (calculated (calculateLineItem inp))
       + roundingAdjustment (calculateLineItem inp)"
    by (simp add: total_calculateLineItem roundingAdjustment_calculateLineItem)
next
  let ?m = "preciseAdd 1 (truncateTo DEFAULT_PRECISION_DECIMAL_PLACES
                            (safeParsePreciseString tax 0 / 100))"
  show "case calculateLineItemFromTotal t q tax disc c of
        Inr r \<Rightarrow>
          total (calculated r)
            = taxableAmount (calculated r) + taxAmount (calculated r) + roundingAdjustment r
          \<and> roundingAdjustment r
              = roundForCurrency t c DEFAULT_ROUNDING_MODE - recomputedTotal r
          \<and> recomputedTotal r =
              total (calculated (calculateLineItem
                \<lparr>unitPrice = Some (displayedUnitPrice r),
                 quantity = Some (of_int (quantity_i (input r))),
                 discountAmount = Some (safeParsePreciseString disc 0),
                 taxRate = Some (safeParsePreciseString tax 0), currency = Some c\<rparr>))
      | Inl e \<Rightarrow> e = DivisionByZero \<and> ?m = 0"
  proof (cases "?m = 0")
    case True
    then show ?thesis by (simp add: calculateLineItemFromTotal_Inl)
  next
    case False
    from calculateLineItemFromTotal_Inr [OF False, of t q disc c]
    obtain r where r: "calculateLineItemFromTotal t q tax disc c = Inr r"
      and tot: "total (calculated r) = roundForCurrency t c DEFAULT_ROUNDING_MODE"
      and tx: "taxableAmount (calculated r) =
        taxableAmount (calculated (calculateLineItem
          \<lparr>unitPrice = Some (displayedUnitPrice r), quantity = Some (of_int (quantity_i (input r))),
           discountAmount = Some (safeParsePreciseString disc 0),
           taxRate = Some (safeParsePreciseString tax 0), currency = Some c\<rparr>))"
      and ta: "taxAmount (calculated r) =
        taxAmount (calculated (calculateLineItem
          \<lparr>unitPrice = Some (displayedUnitPrice r), quantity = Some (of_int (quantity_i (input r))),
           discountAmount = Some (safeParsePreciseString disc 0),
           taxRate = Some (safeParsePreciseString tax 0), currency = Some c\<rparr>))"
      and re: "recomputedTotal r =
        total (calculated (calculateLineItem
          \<lparr>unitPrice = Some (displayedUnitPrice r), quantity = Some (of_int (quantity_i (input r))),
           discountAmount = Some (safeParsePreciseString disc 0),
           taxRate = Some (safeParsePreciseString tax 0), currency = Some c\<rparr>))"
      and adj: "roundingAdjustment r = total (calculated r) - recomputedTotal r"
      by blast
    have sum: "recomputedTotal r = taxableAmount (calculated r) + taxAmount (calculated r)"
      by (simp only: re tx ta total_calculateLineItem)
    have inv: "total (calculated r)
        = taxableAmount (calculated r) + taxAmount (calculated r) + roundingAdjustment r"
      using sum adj by simp
    have adj': "roundingAdjustment r
        = roundForCurrency t c DEFAULT_ROUNDING_MODE - recomputedTotal r"
      using adj by (simp only: tot)
    show ?thesis using inv adj' re by (simp add: r)
  qed
qed

lemma invariant_eval:
  "calculateLineItemFromTotal 1000 (Some 7) (Some 18) (Some 0) ''INR'' =
     Inr \<lparr>input = \<lparr>unitPrice_i = 12107 / 100, quantity_i = 7, discountAmount_i = 0,
                    taxRate_i = 18\<rparr>,
          calculated = \<lparr>grossAmount = 84749 / 100, taxableAmount = 84749 / 100,
                         taxAmount = 15255 / 100, total = 1000\<rparr>,
          roundingAdjustment = - (4 / 100), currency_r = ''INR'', decimalPlaces = 2,
          exactUnitPrice = 1210657142857 / 10000000000, displayedUnitPrice = 12107 / 100,
          recomputedTotal = 100004 / 100, hasAdjustment = True\<rparr>"
  by code_simp

lemma invariant_eval_total: "roundForCurrency 1000 ''INR'' DEFAULT_ROUNDING_MODE = 1000"
  by code_simp

text \<open>
  The entered total 1000 for seven units at 18 percent, in INR: the displayed unit price
  121.07 recomputes to 1000.04, and the adjustment -0.04 restores the entered total.
\<close>

theorem lineItem_total_invariant_witness:
  "(case calculateLineItemFromTotal 1000 (Some 7) (Some 18) (Some 0) ''INR'' of
      Inr r \<Rightarrow>
        total (calculated r) = 1000
        \<and> recomputedTotal r = 100004 / 100
        \<and> roundingAdjustment r = 1000 - recomputedTotal r
        \<and> taxableAmount (calculated r) + taxAmount (calculated r) + roundingAdjustment r = 1000
    | Inl e \<Rightarrow> False)"
  using lineItem_total_invariant
      [where t = 1000 and q = "Some 7" and tax = "Some 18" and disc = "Some 0" and c = "''INR''"]
    invariant_eval invariant_eval_total
  by simp

text \<open>
  C1 as stated fails for an entered total finer than the currency's scale: for 2360.004
  in INR, two units at 18 percent, the recomputed total is 2360.00 and the adjustment is
  0, not the 0.004 by which the entered total exceeds the recomputed one.
\<close>

theorem lineItem_adjustment_counterexample:
  "(case calculateLineItemFromTotal (2360004 / 1000) (Some 2) (Some 18) (Some 0) ''INR'' of
      Inr r \<Rightarrow>
        recomputedTotal r = 2360
        \<and> roundingAdjustment r = 0
        \<and> roundingAdjustment r \<noteq> 2360004 / 1000 - recomputedTotal r
    | Inl e \<Rightarrow> False)"
  by code_simp

text \<open>
  C5 (amended). In entered-total mode, whenever the tax multiplier is not zero,
  \<^verbatim>\<open>calculateLineItemFromTotal\<close> returns a result whose total is the entered total rounded
  to the currency's scale (the entered total itself when that is at the scale, never the
  recomputed one), whose rounding adjustment is that total minus the total recomputed by
  \<^verbatim>\<open>calculateLineItem\<close> from the displayed (rounded) unit price, and whose
  \<open>hasAdjustment\<close> is true exactly when the adjustment is not zero.
\<close>

theorem enteredTotal_mode:
  assumes "preciseAdd 1 (truncateTo DEFAULT_PRECISION_DECIMAL_PLACES
                           (safeParsePreciseString tax 0 / 100)) \<noteq> 0"
  shows "\<exists>r. calculateLineItemFromTotal t q tax disc c = Inr r
    \<and> total (calculated r) = roundForCurrency t c DEFAULT_ROUNDING_MODE
    \<and> (atScale (getCurrencyDecimalPlaces c) t \<longrightarrow> total (calculated r) = t)
    \<and> displayedUnitPrice r = roundForCurrency (exactUnitPrice r) c DEFAULT_ROUNDING_MODE
    \<and> roundingAdjustment r =
        roundForCurrency t c DEFAULT_ROUNDING_MODE
        - total (calculated (calculateLineItem
            \<lparr>unitPrice = Some (displayedUnitPrice r),
             quantity = Some (of_int (mathMax 1 (mathFloor (safeToNumber q 1)))),
             discountAmount = Some (safeParsePreciseString disc 0),
             taxRate = Some (safeParsePreciseString tax 0), currency = Some c\<rparr>))
    \<and> hasAdjustment r = (roundingAdjustment r \<noteq> 0)"
proof -
  from calculateLineItemFromTotal_Inr [OF assms, of t q disc c]
  obtain r where r: "calculateLineItemFromTotal t q tax disc c = Inr r"
    and tot: "total (calculated r) = roundForCurrency t c DEFAULT_ROUNDING_MODE"
    and qty: "quantity_i (input r) = mathMax 1 (mathFloor (safeToNumber q 1))"
    and dis: "displayedUnitPrice r = roundForCurrency (exactUnitPrice r) c DEFAULT_ROUNDING_MODE"
    and re: "recomputedTotal r =
        total (calculated (calculateLineItem
          \<lparr>unitPrice = Some (displayedUnitPrice r), quantity = Some (of_int (quantity_i (input r))),
           discountAmount = Some (safeParsePreciseString disc 0),
           taxRate = Some (safeParsePreciseString tax 0), currency = Some c\<rparr>))"
    and adj: "roundingAdjustment r = total (calculated r) - recomputedTotal r"
    and has: "hasAdjustment r = (roundingAdjustment r \<noteq> 0)"
    by blast
  have same: "atScale (getCurrencyDecimalPlaces c) t \<longrightarrow> total (calculated r) = t"
    by (simp add: tot roundForCurrency_atScale)
  have adj': "roundingAdjustment r =
        roundForCurrency t c DEFAULT_ROUNDING_MODE
        - total (calculated (calculateLineItem
            \<lparr>unitPrice = Some (displayedUnitPrice r),
             quantity = Some (of_int (mathMax 1 (mathFloor (safeToNumber q 1)))),
             discountAmount = Some (safeParsePreciseString disc 0),
             taxRate = Some (safeParsePreciseString tax 0), currency = Some c\<rparr>))"
    using adj by (simp only: tot re qty)
  show ?thesis using r tot same dis adj' has by blast
qed

lemma entered_eval_multiplier:
  "preciseAdd 1 (truncateTo DEFAULT_PRECISION_DECIMAL_PLACES
                   (safeParsePreciseString (Some 18) 0 / 100)) \<noteq> 0"
  by code_simp

lemma entered_eval_total: "roundForCurrency 100 ''INR'' DEFAULT_ROUNDING_MODE = 100"
  by code_simp

lemma entered_eval_result:
  "calculateLineItemFromTotal 100 (Some 3) (Some 18) (Some 0) ''INR'' =
     Inr \<lparr>input = \<lparr>unitPrice_i = 2825 / 100, quantity_i = 3, discountAmount_i = 0,
                    taxRate_i = 18\<rparr>,
          calculated = \<lparr>grossAmount = 8475 / 100, taxableAmount = 8475 / 100,
                         taxAmount = 1526 / 100, total = 100\<rparr>,
          roundingAdjustment = - (1 / 100), currency_r = ''INR'', decimalPlaces = 2,
          exactUnitPrice = 2825 / 100, displayedUnitPrice = 2825 / 100,
          recomputedTotal = 10001 / 100, hasAdjustment = True\<rparr>"
  by code_simp

theorem enteredTotal_mode_witness:
  "(case calculateLineItemFromTotal 100 (Some 3) (Some 18) (Some 0) ''INR'' of
      Inr r \<Rightarrow> total (calculated r) = 100 \<and> roundingAdjustment r = - (1 / 100) \<and> hasAdjustment r
    | Inl e \<Rightarrow> False)"
  using enteredTotal_mode
      [OF entered_eval_multiplier, where t = 100 and q = "Some 3" and disc = "Some 0"
        and c = "''INR''"]
    entered_eval_total entered_eval_result
  by auto

text \<open>
  C5 as stated fails for an entered total finer than the currency's scale: 1180.004 in
  INR is returned as 1180.00.
\<close>

theorem enteredTotal_counterexample:
  "(case calculateLineItemFromTotal (1180004 / 1000) (Some 1) (Some 18) (Some 0) ''INR'' of
      Inr r \<Rightarrow> total (calculated r) = 1180 \<and> total (calculated r) \<noteq> 1180004 / 1000
    | Inl e \<Rightarrow> False)"
  by code_simp

section \<open>Derived mode and input sanitization\<close>

lemma roundForCurrency_default: "roundForCurrency x c DEFAULT_ROUNDING_MODE = roundToScale c x"
  by (simp add: roundForCurrency_def round_m_def roundToScale_def DEFAULT_ROUNDING_MODE_def)

text \<open>
  C6. In derived mode the calculated amounts of \<^verbatim>\<open>calculateLineItem\<close> are those of the
  spec's four rounded steps on the sanitized input, with the effective discount
  \<open>min discount gross\<close>, and the rounding adjustment is 0; unit price 1000, quantity 2
  and tax rate 18 give gross 2000.00, taxable 2000.00, tax 360.00 and total 2360.00.
\<close>

theorem calculateLineItem_derived:
  "calculated (calculateLineItem inp)
     = derivedModeSpec (unitPrice_v (validateLineItemInput inp))
         (quantity_v (validateLineItemInput inp)) (discountAmount_v (validateLineItemInput inp))
         (taxRate_v (validateLineItemInput inp)) (currency_v (validateLineItemInput inp))
   \<and> roundingAdjustment (calculateLineItem inp) = 0
   \<and> calculated (calculateLineItem
        \<lparr>unitPrice = Some 1000, quantity = Some 2, discountAmount = None, taxRate = Some 18,
         currency = None\<rparr>)
       = \<lparr>grossAmount = 2000, taxableAmount = 2000, taxAmount = 360, total = 2360\<rparr>
   \<and> roundingAdjustment (calculateLineItem
        \<lparr>unitPrice = Some 1000, quantity = Some 2, discountAmount = None, taxRate = Some 18,
         currency = None\<rparr>) = 0"
proof -
  have eff: "(if preciseGreaterThan a b then b else a) = min a b" for a b :: rat
    by (simp add: preciseGreaterThan_def min_def)
  have gen: "calculated (calculateLineItem inp)
     = derivedModeSpec (unitPrice_v (validateLineItemInput inp))
         (quantity_v (validateLineItemInput inp)) (discountAmount_v (validateLineItemInput inp))
         (taxRate_v (validateLineItemInput inp)) (currency_v (validateLineItemInput inp))"
    by (simp add: calculateLineItem_def derivedModeSpec_def Let_def eff roundForCurrency_default
        preciseMultiply_def preciseSubtract_def precisePercentage_def preciseAdd_def)
  have ex: "calculated (calculateLineItem
        \<lparr>unitPrice = Some 1000, quantity = Some 2, discountAmount = None, taxRate = Some 18,
         currency = None\<rparr>)
       = \<lparr>grossAmount = 2000, taxableAmount = 2000, taxAmount = 360, total = 2360\<rparr>"
    by code_simp
  show ?thesis using gen ex by (simp add: roundingAdjustment_calculateLineItem)
qed

lemma input_calculateLineItem:
  "input (calculateLineItem inp)
     = \<lparr>unitPrice_i = unitPrice_v (validateLineItemInput inp),
        quantity_i = quantity_v (validateLineItemInput inp),
        discountAmount_i =
          min (discountAmount_v (validateLineItemInput inp))
            (grossAmount (calculated (calculateLineItem inp))),
        taxRate_i = taxRate_v (validateLineItemInput inp)\<rparr>"
  by (simp add: calculateLineItem_def Let_def preciseGreaterThan_def min_def)

text \<open>
  C9 (amended). \<^verbatim>\<open>validateLineItemInput\<close> never fails: it clamps a negative unit price
  and a negative discount to 0, the tax rate into \<open>[0, 100]\<close> and the quantity to
  \<open>min (2^53 - 1) (max 1 (floor q))\<close>; it records the message of each violation (negative
  unit price, quantity below 1, negative discount, tax rate below 0 or above 100), and
  \<open>isValid\<close> is false exactly when one of them occurred; \<^verbatim>\<open>calculateLineItem\<close> proceeds
  with the clamped values.
\<close>

theorem validateLineItemInput_clamps:
  "unitPrice_v (validateLineItemInput inp) = max 0 (safeParsePreciseString (unitPrice inp) 0)
   \<and> discountAmount_v (validateLineItemInput inp)
       = max 0 (safeParsePreciseString (discountAmount inp) 0)
   \<and> taxRate_v (validateLineItemInput inp)
       = min 100 (max 0 (safeParsePreciseString (taxRate inp) 0))
   \<and> quantity_v (validateLineItemInput inp)
       = min MAX_SAFE_INTEGER (max 1 \<lfloor>safeToNumber (quantity inp) 1\<rfloor>)
   \<and> (''Unit price cannot be negative'' \<in> set (errors (validateLineItemInput inp))
        \<longleftrightarrow> safeParsePreciseString (unitPrice inp) 0 < 0)
   \<and> (''Quantity must be at least 1'' \<in> set (errors (validateLineItemInput inp))
        \<longleftrightarrow> numberLessThan (quantity inp) 1)
   \<and> (''Discount cannot be negative'' \<in> set (errors (validateLineItemInput inp))
        \<longleftrightarrow> safeParsePreciseString (discountAmount inp) 0 < 0)
   \<and> (''Tax rate cannot be negative'' \<in> set (errors (validateLineItemInput inp))
        \<longleftrightarrow> safeParsePreciseString (taxRate inp) 0 < 0)
   \<and> (''Tax rate cannot exceed 100%'' \<in> set (errors (validateLineItemInput inp))
        \<longleftrightarrow> 100 < safeParsePreciseString (taxRate inp) 0)
   \<and> (isValid (validateLineItemInput inp)
        \<longleftrightarrow> \<not> (safeParsePreciseString (unitPrice inp) 0 < 0
               \<or> numberLessThan (quantity inp) 1
               \<or> safeParsePreciseString (discountAmount inp) 0 < 0
               \<or> safeParsePreciseString (taxRate inp) 0 < 0
               \<or> 100 < safeParsePreciseString (taxRate inp) 0))
   \<and> input (calculateLineItem inp)
       = \<lparr>unitPrice_i = unitPrice_v (validateLineItemInput inp),
          quantity_i = quantity_v (validateLineItemInput inp),
          discountAmount_i =
            min (discountAmount_v (validateLineItemInput inp))
              (grossAmount (calculated (calculateLineItem inp))),
          taxRate_i = taxRate_v (validateLineItemInput inp)\<rparr>"
proof -
  have 1: "unitPrice_v (validateLineItemInput inp) = max 0 (safeParsePreciseString (unitPrice inp) 0)"
    by (simp add: validateLineItemInput_def Let_def preciseIsNegative_def max_def)
  have 2: "discountAmount_v (validateLineItemInput inp)
       = max 0 (safeParsePreciseString (discountAmount inp) 0)"
    by (simp add: validateLineItemInput_def Let_def preciseClamp_def preciseMax_def
        preciseGreaterThan_def max_def)
  have 3: "taxRate_v (validateLineItemInput inp)
       = min 100 (max 0 (safeParsePreciseString (taxRate inp) 0))"
    by (simp add: validateLineItemInput_def Let_def preciseClamp_def max_def min_def)
  have 4: "quantity_v (validateLineItemInput inp)
       = min MAX_SAFE_INTEGER (max 1 \<lfloor>safeToNumber (quantity inp) 1\<rfloor>)"
  proof -
    have clamp: "mathClamp v 1 MAX_SAFE_INTEGER = min MAX_SAFE_INTEGER (max 1 v)" for v
      by (simp add: mathClamp_def MAX_SAFE_INTEGER_def max_def min_def)
    show ?thesis
      by (simp add: validateLineItemInput_def Let_def mathFloor_def clamp)
  qed
  have 5: "(''Unit price cannot be negative'' \<in> set (errors (validateLineItemInput inp))
        \<longleftrightarrow> safeParsePreciseString (unitPrice inp) 0 < 0)"
    by (simp add: validateLineItemInput_def Let_def preciseIsNegative_def preciseGreaterThan_def)
  have 6: "(''Quantity must be at least 1'' \<in> set (errors (validateLineItemInput inp))
        \<longleftrightarrow> numberLessThan (quantity inp) 1)"
    by (simp add: validateLineItemInput_def Let_def preciseIsNegative_def preciseGreaterThan_def)
  have 7: "(''Discount cannot be negative'' \<in> set (errors (validateLineItemInput inp))
        \<longleftrightarrow> safeParsePreciseString (discountAmount inp) 0 < 0)"
    by (simp add: validateLineItemInput_def Let_def preciseIsNegative_def preciseGreaterThan_def)
  have 8: "(''Tax rate cannot be negative'' \<in> set (errors (validateLineItemInput inp))
        \<longleftrightarrow> safeParsePreciseString (taxRate inp) 0 < 0)"
    by (simp add: validateLineItemInput_def Let_def preciseIsNegative_def preciseGreaterThan_def)
  have 9: "(''Tax rate cannot exceed 100%'' \<in> set (errors (validateLineItemInput inp))
        \<longleftrightarrow> 100 < safeParsePreciseString (taxRate inp) 0)"
    by (simp add: validateLineItemInput_def Let_def preciseIsNegative_def preciseGreaterThan_def)
  have 10: "(isValid (validateLineItemInput inp)
        \<longleftrightarrow> \<not> (safeParsePreciseString (unitPrice inp) 0 < 0
               \<or> numberLessThan (quantity inp) 1
               \<or> safeParsePreciseString (discountAmount inp) 0 < 0
               \<or> safeParsePreciseString (taxRate inp) 0 < 0
               \<or> 100 < safeParsePreciseString (taxRate inp) 0))"
    by (simp add: validateLineItemInput_def Let_def preciseIsNegative_def preciseGreaterThan_def)
  show ?thesis
    by (intro conjI 1 2 3 4 5 6 7 8 9 10 input_calculateLineItem)
qed

theorem validateLineItemInput_clamps_witness:
  "discountAmount_v (validateLineItemInput
      \<lparr>unitPrice = Some 100, quantity = Some 0, discountAmount = Some (- 50),
       taxRate = Some 150, currency = None\<rparr>) = 0
   \<and> taxRate_v (validateLineItemInput
      \<lparr>unitPrice = Some 100, quantity = Some 0, discountAmount = Some (- 50),
       taxRate = Some 150, currency = None\<rparr>) = 100
   \<and> quantity_v (validateLineItemInput
      \<lparr>unitPrice = Some 100, quantity = Some 0, discountAmount = Some (- 50),
       taxRate = Some 150, currency = None\<rparr>) = 1
   \<and> \<not> isValid (validateLineItemInput
      \<lparr>unitPrice = Some 100, quantity = Some 0, discountAmount = Some (- 50),
       taxRate = Some 150, currency = None\<rparr>)"
  using validateLineItemInput_clamps
    [of "\<lparr>unitPrice = Some 100, quantity = Some 0, discountAmount = Some (- 50),
       taxRate = Some 150, currency = None\<rparr>"]
  by (simp add: safeParsePreciseString_def safeToNumber_def numberLessThan_def
      MAX_SAFE_INTEGER_def)

text \<open>
  C9 as stated fails on the quantity \<open>2^53\<close>: it is clamped to \<open>2^53 - 1\<close>, which is not
  \<open>max 1 (floor q)\<close>, and no violation is recorded.
\<close>

theorem validateLineItemInput_counterexample:
  "quantity_v (validateLineItemInput
      \<lparr>unitPrice = Some 100, quantity = Some 9007199254740992, discountAmount = None,
       taxRate = Some 18, currency = None\<rparr>)
     \<noteq> max 1 \<lfloor>9007199254740992 :: rat\<rfloor>
   \<and> isValid (validateLineItemInput
      \<lparr>unitPrice = Some 100, quantity = Some 9007199254740992, discountAmount = None,
       taxRate = Some 18, currency = None\<rparr>)"
  by code_simp

section \<open>Aggregation and integrity\<close>

lemma items_aggregateLineItems: "items (aggregateLineItems its c) = its"
  by (simp add: aggregateLineItems_def Let_def)

lemma currency_aggregateLineItems: "currency_a (aggregateLineItems its c) = c"
  by (simp add: aggregateLineItems_def Let_def)

lemma grandTotal_aggregateLineItems:
  "grandTotal (aggregateLineItems its c)
     = roundForCurrency (preciseSum (map (\<lambda>item. total (calculated item)) its)) c
         DEFAULT_ROUNDING_MODE"
  by (simp add: aggregateLineItems_def Let_def preciseSum_def roundForCurrency_atScale atScale_0)

text \<open>
  C3 (amended). For every list of line items whose totals are at the scale of the
  aggregation currency, and every such currency, the grand total of
  \<^verbatim>\<open>aggregateLineItems\<close> is the exact sum of the items' totals.
\<close>

theorem aggregateLineItems_grandTotal:
  assumes "\<forall>item \<in> set its. atScale (getCurrencyDecimalPlaces c) (total (calculated item))"
  shows "grandTotal (aggregateLineItems its c)
           = sum_list (map (\<lambda>item. total (calculated item)) its)"
proof -
  have "atScale (getCurrencyDecimalPlaces c) (sum_list (map (\<lambda>item. total (calculated item)) its))"
    using assms by (intro atScale_sum_list) auto
  then show ?thesis
    by (simp add: grandTotal_aggregateLineItems preciseSum_def roundForCurrency_atScale)
qed

lemma inr_places: "getCurrencyDecimalPlaces ''INR'' = 2"
  by code_simp

lemma default_places: "getCurrencyDecimalPlaces (currencyOrDefault (Some ''INR'')) = 2"
  by code_simp

lemma grandTotal_eval:
  "total (calculated (calculateLineItem
      \<lparr>unitPrice = Some 1000, quantity = Some 2, discountAmount = None, taxRate = Some 18,
       currency = Some ''INR''\<rparr>)) = 2360
   \<and> total (calculated (calculateLineItem
      \<lparr>unitPrice = Some 750, quantity = Some 1, discountAmount = Some 100, taxRate = Some 18,
       currency = Some ''INR''\<rparr>)) = 767"
  by code_simp

theorem aggregateLineItems_grandTotal_witness:
  "grandTotal (aggregateLineItems
      [calculateLineItem
         \<lparr>unitPrice = Some 1000, quantity = Some 2, discountAmount = None, taxRate = Some 18,
          currency = Some ''INR''\<rparr>,
       calculateLineItem
         \<lparr>unitPrice = Some 750, quantity = Some 1, discountAmount = Some 100, taxRate = Some 18,
          currency = Some ''INR''\<rparr>] ''INR'') = 3127"
proof -
  let ?a = "calculateLineItem
         \<lparr>unitPrice = Some 1000, quantity = Some 2, discountAmount = None, taxRate = Some 18,
          currency = Some ''INR''\<rparr>"
  let ?b = "calculateLineItem
         \<lparr>unitPrice = Some 750, quantity = Some 1, discountAmount = Some 100, taxRate = Some 18,
          currency = Some ''INR''\<rparr>"
  have a: "atScale (getCurrencyDecimalPlaces ''INR'') (total (calculated ?a))"
    using atScale_total_calculateLineItem
      [of "\<lparr>unitPrice = Some 1000, quantity = Some 2, discountAmount = None, taxRate = Some 18,
          currency = Some ''INR''\<rparr>"]
    by (simp add: default_places inr_places)
  have b: "atScale (getCurrencyDecimalPlaces ''INR'') (total (calculated ?b))"
    using atScale_total_calculateLineItem
      [of "\<lparr>unitPrice = Some 750, quantity = Some 1, discountAmount = Some 100, taxRate = Some 18,
          currency = Some ''INR''\<rparr>"]
    by (simp add: default_places inr_places)
  have "\<forall>item \<in> set [?a, ?b]. atScale (getCurrencyDecimalPlaces ''INR'') (total (calculated item))"
    using a b by simp
  from aggregateLineItems_grandTotal [OF this] grandTotal_eval
  show ?thesis by simp
qed

text \<open>
  C3 as stated fails when an item's total is finer than the aggregation currency's
  scale: a line of 1.001 KWD aggregated in INR has the grand total 1.00.
\<close>

theorem aggregateLineItems_counterexample:
  "grandTotal (aggregateLineItems
      [calculateLineItem
         \<lparr>unitPrice = Some (1001 / 1000), quantity = Some 1, discountAmount = None,
          taxRate = Some 0, currency = Some ''KWD''\<rparr>] ''INR'') = 1
   \<and> total (calculated (calculateLineItem
         \<lparr>unitPrice = Some (1001 / 1000), quantity = Some 1, discountAmount = None,
          taxRate = Some 0, currency = Some ''KWD''\<rparr>)) = 1001 / 1000"
  by code_simp

lemma total_asLineItemResult: "total (calculated (asLineItemResult r)) = total (calculated r)"
  and taxable_asLineItemResult:
    "taxableAmount (calculated (asLineItemResult r)) = taxableAmount (calculated r)"
  and tax_asLineItemResult: "taxAmount (calculated (asLineItemResult r)) = taxAmount (calculated r)"
  and adjustment_asLineItemResult: "roundingAdjustment (asLineItemResult r) = roundingAdjustment r"
  by (simp_all add: asLineItemResult_def LineItemResult.truncate_def)

lemma calculateLineItemFromTotal_sound:
  assumes "calculateLineItemFromTotal t q tax disc c = Inr r"
  shows "total (calculated r)
           = taxableAmount (calculated r) + taxAmount (calculated r) + roundingAdjustment r"
    and "atScale (getCurrencyDecimalPlaces c) (total (calculated r))"
proof -
  let ?m = "preciseAdd 1 (truncateTo DEFAULT_PRECISION_DECIMAL_PLACES
                            (safeParsePreciseString tax 0 / 100))"
  have m: "?m \<noteq> 0"
  proof
    assume "?m = 0"
    then have "calculateLineItemFromTotal t q tax disc c = Inl DivisionByZero"
      by (rule calculateLineItemFromTotal_Inl)
    with assms show False by simp
  qed
  from calculateLineItemFromTotal_Inr [OF m, of t q disc c] assms
  have tot: "total (calculated r) = roundForCurrency t c DEFAULT_ROUNDING_MODE"
    and tx: "taxableAmount (calculated r) =
        taxableAmount (calculated (calculateLineItem
          \<lparr>unitPrice = Some (displayedUnitPrice r), quantity = Some (of_int (quantity_i (input r))),
           discountAmount = Some (safeParsePreciseString disc 0),
           taxRate = Some (safeParsePreciseString tax 0), currency = Some c\<rparr>))"
    and ta: "taxAmount (calculated r) =
        taxAmount (calculated (calculateLineItem
          \<lparr>unitPrice = Some (displayedUnitPrice r), quantity = Some (of_int (quantity_i (input r))),
           discountAmount = Some (safeParsePreciseString disc 0),
           taxRate = Some (safeParsePreciseString tax 0), currency = Some c\<rparr>))"
    and re: "recomputedTotal r =
        total (calculated (calculateLineItem
          \<lparr>unitPrice = Some (displayedUnitPrice r), quantity = Some (of_int (quantity_i (input r))),
           discountAmount = Some (safeParsePreciseString disc 0),
           taxRate = Some (safeParsePreciseString tax 0), currency = Some c\<rparr>))"
    and adj: "roundingAdjustment r = total (calculated r) - recomputedTotal r"
    by auto
  have "recomputedTotal r = taxableAmount (calculated r) + taxAmount (calculated r)"
    by (simp only: re tx ta total_calculateLineItem)
  with adj show "total (calculated r)
           = taxableAmount (calculated r) + taxAmount (calculated r) + roundingAdjustment r"
    by simp
  show "atScale (getCurrencyDecimalPlaces c) (total (calculated r))"
    by (simp add: tot atScale_roundForCurrency)
qed

lemma produced_sound:
  assumes "produced d item"
  shows "total (calculated item)
           = taxableAmount (calculated item) + taxAmount (calculated item)
             + roundingAdjustment item"
    and "atScale d (total (calculated item))"
  using assms
proof (induction rule: produced.induct)
  case (derived inp d)
  {
    case 1
    show ?case by (simp add: total_calculateLineItem roundingAdjustment_calculateLineItem)
  next
    case 2
    show ?case using atScale_total_calculateLineItem derived by (rule atScale_mono)
  }
next
  case (entered t q tax disc c r d)
  {
    case 1
    show ?case
      using calculateLineItemFromTotal_sound(1) [OF entered(1)]
      by (simp add: total_asLineItemResult taxable_asLineItemResult tax_asLineItemResult
          adjustment_asLineItemResult)
  next
    case 2
    show ?case
      using calculateLineItemFromTotal_sound(2) [OF entered(1)] entered(2)
      by (simp add: total_asLineItemResult atScale_mono)
  }
qed

lemma verifyLineItems_clean:
  assumes "\<And>item. item \<in> set its \<Longrightarrow>
    roundForCurrency
      (taxableAmount (calculated item) + taxAmount (calculated item) + roundingAdjustment item)
      c DEFAULT_ROUNDING_MODE = total (calculated item)"
  shows "verifyLineItems c i its errs = errs"
  using assms
proof (induction its arbitrary: i errs)
  case Nil
  show ?case by simp
next
  case (Cons item rest)
  have "verifyLineItems c (i + 1) rest errs = errs"
    by (rule Cons.IH) (simp add: Cons.prems)
  then show ?case
    using Cons.prems [of item]
    by (simp add: Let_def preciseAdd_def preciseEquals_def)
qed

text \<open>
  C4 (amended). For every list of line items produced by \<^verbatim>\<open>calculateLineItem\<close> or
  \<^verbatim>\<open>calculateLineItemFromTotal\<close> in currencies with at most as many decimal places as the
  aggregation currency, \<^verbatim>\<open>verifyInvoiceIntegrity\<close> of the aggregation returns an empty
  error list and \<open>isValid = true\<close>.
\<close>

theorem verifyInvoiceIntegrity_roundtrip:
  assumes "\<forall>item \<in> set its. produced (getCurrencyDecimalPlaces c) item"
  shows "errors_g (verifyInvoiceIntegrity (aggregateLineItems its c)) = []
    \<and> isValid_g (verifyInvoiceIntegrity (aggregateLineItems its c))"
proof -
  have line: "roundForCurrency
      (taxableAmount (calculated item) + taxAmount (calculated item) + roundingAdjustment item)
      c DEFAULT_ROUNDING_MODE = total (calculated item)" if "item \<in> set its" for item
  proof -
    from that assms have p: "produced (getCurrencyDecimalPlaces c) item" by blast
    show ?thesis
      using produced_sound [OF p] by (simp add: roundForCurrency_atScale)
  qed
  have clean: "verifyLineItems c 0 its [] = []"
    by (rule verifyLineItems_clean) (rule line)
  show ?thesis
    by (simp add: verifyInvoiceIntegrity_def Let_def items_aggregateLineItems
        currency_aggregateLineItems clean grandTotal_aggregateLineItems preciseEquals_def)
qed

lemma roundtrip_eval:
  "calculateLineItemFromTotal 1180 (Some 1) (Some 18) (Some 0) ''INR'' =
     Inr \<lparr>input = \<lparr>unitPrice_i = 1000, quantity_i = 1, discountAmount_i = 0, taxRate_i = 18\<rparr>,
          calculated = \<lparr>grossAmount = 1000, taxableAmount = 1000, taxAmount = 180,
                         total = 1180\<rparr>,
          roundingAdjustment = 0, currency_r = ''INR'', decimalPlaces = 2,
          exactUnitPrice = 1000, displayedUnitPrice = 1000,
          recomputedTotal = 1180, hasAdjustment = False\<rparr>"
  by code_simp

theorem verifyInvoiceIntegrity_roundtrip_witness:
  "errors_g (verifyInvoiceIntegrity (aggregateLineItems
      [calculateLineItem
         \<lparr>unitPrice = Some 500, quantity = Some 2, discountAmount = None, taxRate = Some 12,
          currency = Some ''INR''\<rparr>,
       asLineItemResult
         \<lparr>input = \<lparr>unitPrice_i = 1000, quantity_i = 1, discountAmount_i = 0, taxRate_i = 18\<rparr>,
          calculated = \<lparr>grossAmount = 1000, taxableAmount = 1000, taxAmount = 180,
                         total = 1180\<rparr>,
          roundingAdjustment = 0, currency_r = ''INR'', decimalPlaces = 2,
          exactUnitPrice = 1000, displayedUnitPrice = 1000,
          recomputedTotal = 1180, hasAdjustment = False\<rparr>] ''INR'')) = []"
proof -
  have a: "produced (getCurrencyDecimalPlaces ''INR'') (calculateLineItem
         \<lparr>unitPrice = Some 500, quantity = Some 2, discountAmount = None, taxRate = Some 12,
          currency = Some ''INR''\<rparr>)"
    by (rule produced.derived) (simp add: default_places inr_places)
  have b: "produced (getCurrencyDecimalPlaces ''INR'') (asLineItemResult
         \<lparr>input = \<lparr>unitPrice_i = 1000, quantity_i = 1, discountAmount_i = 0, taxRate_i = 18\<rparr>,
          calculated = \<lparr>grossAmount = 1000, taxableAmount = 1000, taxAmount = 180,
                         total = 1180\<rparr>,
          roundingAdjustment = 0, currency_r = ''INR'', decimalPlaces = 2,
          exactUnitPrice = 1000, displayedUnitPrice = 1000,
          recomputedTotal = 1180, hasAdjustment = False\<rparr>)"
    by (rule produced.entered [OF roundtrip_eval]) simp
  show ?thesis
    using a b by (intro verifyInvoiceIntegrity_roundtrip [THEN conjunct1]) simp
qed

text \<open>
  C4 as stated fails when a line item was calculated at a finer scale than that of the
  aggregation currency: a line of 1.001 KWD aggregated in INR is reported as a mismatch.
\<close>

theorem verifyInvoiceIntegrity_counterexample:
  "errors_g (verifyInvoiceIntegrity (aggregateLineItems
      [calculateLineItem
         \<lparr>unitPrice = Some (1001 / 1000), quantity = Some 1, discountAmount = None,
          taxRate = Some 0, currency = Some ''KWD''\<rparr>] ''INR''))
     = [LineItemMismatch 1 (1001 / 1000) 1]
   \<and> \<not> isValid_g (verifyInvoiceIntegrity (aggregateLineItems
      [calculateLineItem
         \<lparr>unitPrice = Some (1001 / 1000), quantity = Some 1, discountAmount = None,
          taxRate = Some 0, currency = Some ''KWD''\<rparr>] ''INR''))"
  by code_simp

end
